theory Spec2Isabelle
  imports Main
begin

section \<open>Constants and data of profiler.go\<close>

datatype error = Panic string

definition gasFee :: int where
  "gasFee = 10000000"

definition gasWanted :: int where
  "gasWanted = 800000"

definition csvFile :: string where
  "csvFile = ''pc_profiler.csv''"

definition MaxPackageLength :: int where
  "MaxPackageLength = 20"

definition BalanceQuery :: string where
  "BalanceQuery = ''gnokey query bank/balances/g1jg8mtutu9khhfwc4nxmuhcpftf0pajdhfvsqf5''"

definition DefaultChainId :: string where
  "DefaultChainId = ''dev''"

text \<open>\<open>time.Second\<close>: a \<open>time.Duration\<close> counts nanoseconds. Durations and instants are
  modelled as unbounded integers of nanoseconds (Go's 64-bit range of about 292 years is not
  reached by the readings of one process run).\<close>

definition Second :: int where
  "Second = 1000000000"

record ExecutionLog =
  Timestamp :: int
  ResponseTime :: int

record CommandLineArgs =
  MaxThreads :: int
  MaxQPS :: int
  Mode :: string
  PackageName :: string
  FunctionName :: string
  Remote :: string
  KeyName :: string
  PkgDir :: string
  ChainID :: string

section \<open>The environment the program runs in\<close>

text \<open>What an external process started by \<open>exec.Command\<close> gives back: its captured standard
  output and standard error, and the error of \<open>cmd.Run\<close> (\<open>None\<close> is Go's \<open>nil\<close>).\<close>

record proc_result =
  pr_stdout :: string
  pr_stderr :: string
  pr_err :: "string option"

text \<open>One started process as the operating system sees it: the argument vector, the bytes
  readable on its standard input, and the clock when it started and when it ended.\<close>

record exec_record =
  ex_argv :: "string list"
  ex_stdin :: string
  ex_begin :: int
  ex_end :: int

text \<open>
  Everything outside the program is one explicit value that is threaded through the code.
  The parts that the program cannot predict are oracles indexed by a counter:
  \<^item> \<open>elapse k\<close> is the (non-negative) time that passes before the \<open>k\<close>-th observation of the
    clock, so every two clock readings may lie arbitrarily far apart;
  \<^item> \<open>rand_src k\<close> is the \<open>k\<close>-th raw value of the \<open>math/rand\<close> source;
  \<^item> \<open>proc k\<close> is the outcome of the \<open>k\<close>-th external process;
  \<^item> \<open>fs_create k\<close> is the error of the \<open>k\<close>-th \<open>os.Create\<close>, and \<open>fs_write k\<close> the
    outcome of the \<open>k\<close>-th write to a file: \<open>None\<close> for success, \<open>Some j\<close> for a failure
    after the first \<open>j\<close> pending rows got through.
  The formatting functions of Go's library that work on floating-point numbers and calendar
  dates are parameters: \<open>fmt_rfc3339\<close> stands for \<open>Time.Format(time.RFC3339)\<close>,
  \<open>fmt_f_seconds\<close> for \<open>fmt.Sprintf("%f", d.Seconds())\<close> and \<open>fmt_v_seconds\<close> for the way
  \<open>fmt.Println\<close> prints \<open>d.Seconds()\<close>.
  The program's effects are recorded: \<open>execs\<close> (processes run), \<open>stdout\<close> (lines printed),
  \<open>logs\<close> (the shared slice declared in \<open>main\<close>) and \<open>files\<close> (per file name, the rows that
  reached the file through a \<open>csv.Writer\<close>).
\<close>

record world =
  clock :: int
  elapse :: "nat \<Rightarrow> nat"
  tick :: nat
  rand_src :: "nat \<Rightarrow> nat"
  rand_no :: nat
  proc :: "nat \<Rightarrow> proc_result"
  execs :: "exec_record list"
  stdout :: "string list"
  logs :: "ExecutionLog list"
  fs_create :: "nat \<Rightarrow> string option"
  fs_created :: nat
  fs_write :: "nat \<Rightarrow> nat option"
  fs_written :: nat
  files :: "string \<rightharpoonup> string list list"
  fmt_rfc3339 :: "int \<Rightarrow> string"
  fmt_f_seconds :: "int \<Rightarrow> string"
  fmt_v_seconds :: "int \<Rightarrow> string"

definition pass_time :: "world \<Rightarrow> world" where
  "pass_time w = w\<lparr>clock := clock w + int (elapse w (tick w)), tick := tick w + 1\<rparr>"

definition time_Now :: "world \<Rightarrow> int \<times> world" where
  "time_Now w = (let w' = pass_time w in (clock w', w'))"

definition time_Since :: "int \<Rightarrow> world \<Rightarrow> int \<times> world" where
  "time_Since t w = (let (n, w') = time_Now w in (n - t, w'))"

definition time_Until :: "int \<Rightarrow> world \<Rightarrow> int \<times> world" where
  "time_Until t w = (let (n, w') = time_Now w in (t - n, w'))"

text \<open>\<open>time.Sleep d\<close> pauses for at least \<open>d\<close>; a negative or zero \<open>d\<close> returns at once.\<close>

definition time_Sleep :: "int \<Rightarrow> world \<Rightarrow> world" where
  "time_Sleep d w = pass_time (w\<lparr>clock := clock w + max d 0\<rparr>)"

text \<open>\<open>fmt.Println\<close>: the operands separated by spaces, as one line of standard output.\<close>

definition Println :: "string list \<Rightarrow> world \<Rightarrow> world" where
  "Println operands w =
     w\<lparr>stdout := stdout w @ [concat (case operands of [] \<Rightarrow> [] | x # xs \<Rightarrow> x # map ((@) '' '') xs)]\<rparr>"

text \<open>\<open>rand.Intn n\<close> for \<open>n > 0\<close>: a value in \<open>[0, n)\<close>.\<close>

definition rand_Intn :: "nat \<Rightarrow> world \<Rightarrow> nat \<times> world" where
  "rand_Intn n w = (rand_src w (rand_no w) mod n, w\<lparr>rand_no := rand_no w + 1\<rparr>)"

section \<open>randomString\<close>

definition charset :: string where
  "charset = ''abcdefghijklmnopqrstuvwxyz''"

text \<open>The loop \<open>for i := range b { b[i] = charset[rand.Intn(len(charset))] }\<close>, over the
  indices still to visit.\<close>

fun randomString_loop :: "nat list \<Rightarrow> string \<Rightarrow> world \<Rightarrow> string \<times> world" where
  "randomString_loop [] b w = (b, w)"
| "randomString_loop (i # is) b w =
     (let (r, w') = rand_Intn (length charset) w
      in randomString_loop is (b[i := charset ! r]) w')"

text \<open>\<open>make([]byte, length)\<close> panics for a negative length; otherwise it is \<open>length\<close> zero
  bytes.\<close>

definition randomString :: "int \<Rightarrow> world \<Rightarrow> error + (string \<times> world)" where
  "randomString len w =
     (if len < 0 then Inl (Panic ''makeslice: len out of range'')
      else let b = replicate (nat len) (CHR 0x00)
           in Inr (randomString_loop [0..<length b] b w))"

section \<open>generateCommand\<close>

text \<open>The verb \<open>%d\<close> of \<open>fmt.Sprintf\<close> on an integer: decimal digits, with a sign when
  negative.\<close>

function fmt_nat :: "nat \<Rightarrow> string" where
  "fmt_nat n = (if n < 10 then [''0123456789'' ! n] else fmt_nat (n div 10) @ [''0123456789'' ! (n mod 10)])"
  by pat_completeness auto
termination
  by (relation "measure (\<lambda>n. n)") auto

declare fmt_nat.simps [simp del]

definition fmt_d :: "int \<Rightarrow> string" where
  "fmt_d i = (if i < 0 then CHR ''-'' # fmt_nat (nat (- i)) else fmt_nat (nat i))"

text \<open>The apostrophe of the command templates, which a string literal cannot end with.\<close>

abbreviation (input) apostrophe :: string where
  "apostrophe \<equiv> [CHR 0x27]"

text \<open>The source's parameter \<open>packageName\<close> is called \<open>pkgName\<close> here.\<close>

definition generateCommand ::
  "string \<Rightarrow> string \<Rightarrow> string \<Rightarrow> string \<Rightarrow> string \<Rightarrow> string \<Rightarrow> string \<Rightarrow> world
     \<Rightarrow> error + (string \<times> world)" where
  "generateCommand mode pkgName functionName remote keyName pkgDir chainID w =
     (case (if pkgName = [] then randomString MaxPackageLength w else Inr (pkgName, w)) of
        Inl e \<Rightarrow> Inl e
      | Inr (pkgName', w') \<Rightarrow>
          let functionName' = (if functionName = [] then ''Main'' else functionName) in
          if mode = ''addpkg'' then
            Inr (''gnokey maketx addpkg --pkgpath '' @ apostrophe @ ''gno.land/r/'' @ pkgName' @ apostrophe
                 @ '' --pkgdir '' @ pkgDir
                 @ '' --gas-fee '' @ fmt_d gasFee @ ''ugnot --gas-wanted '' @ fmt_d gasWanted
                 @ '' --broadcast --chainid '' @ chainID @ '' --remote '' @ remote
                 @ '' --insecure-password-stdin=true '' @ keyName, w')
          else if mode = ''addpkg+call'' then
            Inl (Panic ''Programming error: addpkg+call should be 2 separate calls to generateCommand.'')
          else if mode = ''call'' then
            Inr (''gnokey maketx call --pkgpath '' @ apostrophe @ ''gno.land/r/'' @ pkgName' @ apostrophe
                 @ '' --func '' @ functionName'
                 @ '' --gas-fee '' @ fmt_d gasFee @ ''ugnot --gas-wanted '' @ fmt_d gasWanted
                 @ '' --broadcast --chainid '' @ chainID @ '' --remote '' @ remote
                 @ '' --insecure-password-stdin=true '' @ keyName, w')
          else if mode = ''balanceQuery'' then Inr (BalanceQuery, w')
          else if mode = ''qrender'' then
            Inr (''gnokey query vm/qrender --data '' @ apostrophe @ pkgName' @ '':'' @ apostrophe
                 @ '' --remote '' @ remote, w')
          else Inl (Panic ''Invalid mode''))"

section \<open>executeCommand\<close>

text \<open>The process is started with the command and the reader set as its standard input; it
  runs for some time; when \<open>cmd.Run\<close> reports an error, two lines are printed. The result is
  the pair \<open>(out.String(), err)\<close>.\<close>

definition executeCommand :: "string \<Rightarrow> string \<Rightarrow> world \<Rightarrow> (string \<times> string option) \<times> world" where
  "executeCommand command password w =
     (let stdin = (if password \<noteq> [] then password @ [CHR 0x0A] else [CHR 0x0A]);
          r = proc w (length (execs w));
          w1 = pass_time w;
          w2 = w1\<lparr>execs := execs w1 @
                 [\<lparr>ex_argv = [''bash'', ''-c'', command], ex_stdin = stdin,
                   ex_begin = clock w, ex_end = clock w1\<rparr>]\<rparr>;
          w3 = (case pr_err r of
                  None \<Rightarrow> w2
                | Some e \<Rightarrow> Println [''stderr:'', pr_stderr r] (Println [''Command error:'', e] w2))
      in ((pr_stdout r, pr_err r), w3))"

section \<open>executeTask\<close>

text \<open>The local variables of \<open>executeTask\<close> that live across iterations of its loop.
  \<open>packageName\<close> is the function's parameter, which the loop assigns to.\<close>

record task_state =
  queryCount :: int
  lastQueryTime :: int
  firstLoop :: bool
  packageName :: string

text \<open>Lines 177-180: the reset check at the head of the loop.\<close>

fun executeTask_reset :: "task_state \<times> world \<Rightarrow> task_state \<times> world" where
  "executeTask_reset (st, w) =
     (let (since, w1) = time_Since (lastQueryTime st) w
      in if since \<ge> Second
         then (let (n, w2) = time_Now w1 in (st\<lparr>queryCount := 0, lastQueryTime := n\<rparr>, w2))
         else (st, w1))"

text \<open>Lines 181-185: either sleep and \<open>continue\<close> (the flag is \<open>False\<close>), or count the
  operation and go on (the flag is \<open>True\<close>).\<close>

fun executeTask_gate :: "int \<Rightarrow> task_state \<times> world \<Rightarrow> bool \<times> task_state \<times> world" where
  "executeTask_gate maxQPS (st, w) =
     (if queryCount st \<ge> maxQPS
      then (let (d, w1) = time_Until (lastQueryTime st + Second) w in (False, st, time_Sleep d w1))
      else (True, st\<lparr>queryCount := queryCount st + 1\<rparr>, w))"

definition executeTask_throttle :: "int \<Rightarrow> task_state \<times> world \<Rightarrow> bool \<times> task_state \<times> world" where
  "executeTask_throttle maxQPS sw = executeTask_gate maxQPS (executeTask_reset sw)"

text \<open>Lines 189-198: the mode of the first command, and the package name made up when the
  composite mode has none.\<close>

fun executeTask_firstMode ::
  "string \<Rightarrow> task_state \<times> world \<Rightarrow> error + (string \<times> task_state \<times> world)" where
  "executeTask_firstMode mode (st, w) =
     (if mode = ''addpkg+call'' then
        (if packageName st = [] then
           (case randomString MaxPackageLength w of
              Inl e \<Rightarrow> Inl e
            | Inr (s, w') \<Rightarrow> Inr (''addpkg'', st\<lparr>packageName := s\<rparr>, w'))
         else Inr (''addpkg'', st, w))
      else Inr (mode, st, w))"

text \<open>Lines 200-211: the first command is generated, announced in the first iteration,
  timed from \<open>start\<close> and executed. The result carries \<open>start\<close>.\<close>

fun executeTask_first ::
  "CommandLineArgs \<Rightarrow> string \<Rightarrow> string \<Rightarrow> task_state \<times> world \<Rightarrow> error + (int \<times> task_state \<times> world)" where
  "executeTask_first args password firstMode (st, w) =
     (case generateCommand firstMode (packageName st) (FunctionName args) (Remote args)
             (KeyName args) (PkgDir args) (ChainID args) w of
        Inl e \<Rightarrow> Inl e
      | Inr (cmdStr, w1) \<Rightarrow>
          let w2 = (if firstLoop st then Println [''INFO: Executing'', cmdStr] w1 else w1);
              (start, w3) = time_Now w2;
              ((out, err), w4) = executeCommand cmdStr password w3;
              w5 = (case err of
                      None \<Rightarrow> w4
                    | Some e \<Rightarrow> Println [''WARNING: Errors executing command: '', e] w4)
          in Inr (start, st, w5))"

text \<open>Lines 213-223: the second command of the composite mode; its result is dropped, and
  \<open>packageName\<close> is emptied.\<close>

fun executeTask_second ::
  "CommandLineArgs \<Rightarrow> string \<Rightarrow> task_state \<times> world \<Rightarrow> error + (task_state \<times> world)" where
  "executeTask_second args password (st, w) =
     (if Mode args = ''addpkg+call'' then
        (case generateCommand ''call'' (packageName st) (FunctionName args) (Remote args)
                (KeyName args) (PkgDir args) (ChainID args) w of
           Inl e \<Rightarrow> Inl e
         | Inr (cmdStr2, w1) \<Rightarrow>
             let (r, w2) = executeCommand cmdStr2 password w1;
                 st' = st\<lparr>packageName := []\<rparr>;
                 w3 = (if firstLoop st' then Println [''INFO: Executing'', cmdStr2] w2 else w2)
             in Inr (st', w3))
      else Inr (st, w))"

text \<open>Lines 224-231: the duration since \<open>start\<close> is read, printed and appended to the shared
  slice with the time of the append. \<open>logMutex\<close> is held around the append; one worker seen
  on its own is not affected by it (the interleaving with other goroutines is the subject of
  the section on shutdown).\<close>

fun executeTask_record :: "int \<Rightarrow> task_state \<times> world \<Rightarrow> task_state \<times> world" where
  "executeTask_record start (st, w) =
     (let (duration, w1) = time_Since start w;
          w2 = Println [''Completed gnokey command in'', fmt_v_seconds w1 duration, ''seconds.''] w1;
          st' = st\<lparr>firstLoop := False\<rparr>;
          (now, w3) = time_Now w2
      in (st', w3\<lparr>logs := logs w3 @ [\<lparr>Timestamp = now, ResponseTime = duration\<rparr>]\<rparr>))"

text \<open>Lines 187-231: what one iteration does once the throttle has let it through.\<close>

definition executeTask_work ::
  "CommandLineArgs \<Rightarrow> string \<Rightarrow> task_state \<times> world \<Rightarrow> error + (task_state \<times> world)" where
  "executeTask_work args password sw =
     (case executeTask_firstMode (Mode args) sw of
        Inl e \<Rightarrow> Inl e
      | Inr (firstMode, sw1) \<Rightarrow>
          (case executeTask_first args password firstMode sw1 of
             Inl e \<Rightarrow> Inl e
           | Inr (start, sw2) \<Rightarrow>
               (case executeTask_second args password sw2 of
                  Inl e \<Rightarrow> Inl e
                | Inr sw3 \<Rightarrow> Inr (executeTask_record start sw3))))"

text \<open>One iteration of the \<open>for\<close> loop (lines 176-232).\<close>

definition executeTask_body ::
  "CommandLineArgs \<Rightarrow> string \<Rightarrow> task_state \<times> world \<Rightarrow> error + (task_state \<times> world)" where
  "executeTask_body args password sw =
     (case executeTask_throttle (MaxQPS args) sw of
        (False, sw') \<Rightarrow> Inr sw'
      | (True, sw') \<Rightarrow> executeTask_work args password sw')"

text \<open>The loop has no exit: it ends only when an iteration panics. \<open>executeTask_loop n\<close> is
  the state after \<open>n\<close> iterations, or the panic that stopped the loop before.\<close>

fun executeTask_loop ::
  "nat \<Rightarrow> CommandLineArgs \<Rightarrow> string \<Rightarrow> task_state \<times> world \<Rightarrow> error + (task_state \<times> world)" where
  "executeTask_loop 0 args password sw = Inr sw"
| "executeTask_loop (Suc n) args password sw =
     (case executeTask_body args password sw of
        Inl e \<Rightarrow> Inl e
      | Inr sw' \<Rightarrow> executeTask_loop n args password sw')"

text \<open>Lines 171-174: the state the loop is entered with. \<open>main\<close> passes the flags
  \<open>*mode\<close>, \<open>*packageName\<close>, ... one by one; they are the fields of \<open>args\<close>.\<close>

definition executeTask_init :: "CommandLineArgs \<Rightarrow> world \<Rightarrow> task_state \<times> world" where
  "executeTask_init args w =
     (let (t, w') = time_Now w
      in (\<lparr>queryCount = 0, lastQueryTime = t, firstLoop = True, packageName = PackageName args\<rparr>, w'))"

definition executeTask ::
  "nat \<Rightarrow> CommandLineArgs \<Rightarrow> string \<Rightarrow> world \<Rightarrow> error + (task_state \<times> world)" where
  "executeTask n args password w = executeTask_loop n args password (executeTask_init args w)"

text \<open>What the throttle decided in each of the first \<open>n\<close> iterations: whether the operation
  was let through, the start of the throttle window it was counted in, and the clock when the
  throttle returned.\<close>

record decision =
  d_admitted :: bool
  d_window :: int
  d_instant :: int


section \<open>saveLogs\<close>

text \<open>\<open>os.Create\<close> truncates the file or reports an error.\<close>

definition os_Create :: "string \<Rightarrow> world \<Rightarrow> string option \<times> world" where
  "os_Create name w =
     (case fs_create w (fs_created w) of
        Some e \<Rightarrow> (Some e, w\<lparr>fs_created := fs_created w + 1\<rparr>)
      | None \<Rightarrow> (None, w\<lparr>fs_created := fs_created w + 1, files := (files w)(name \<mapsto> [])\<rparr>))"

text \<open>A \<open>csv.Writer\<close> on a file: the rows written but not yet flushed, and the error the
  buffered writer underneath keeps once a write to the file has failed. \<open>Write\<close> and \<open>Flush\<close>
  do nothing after such an error. Rows are kept as lists of fields; the bytes the writer
  makes of them (commas, quoting, line ends) are not modelled, nor is a row that reaches the
  file in part.\<close>

record csv_writer =
  cw_name :: string
  cw_buf :: "string list list"
  cw_err :: bool

fun csv_Write :: "string list \<Rightarrow> csv_writer \<times> world \<Rightarrow> csv_writer \<times> world" where
  "csv_Write row (cw, w) = (if cw_err cw then (cw, w) else (cw\<lparr>cw_buf := cw_buf cw @ [row]\<rparr>, w))"

fun csv_Flush :: "csv_writer \<times> world \<Rightarrow> csv_writer \<times> world" where
  "csv_Flush (cw, w) =
     (if cw_err cw \<or> cw_buf cw = [] then (cw, w)
      else (case fs_write w (fs_written w) of
              None \<Rightarrow>
                (cw\<lparr>cw_buf := []\<rparr>,
                 w\<lparr>fs_written := fs_written w + 1,
                   files := (files w)(cw_name cw \<mapsto>
                              (case files w (cw_name cw) of None \<Rightarrow> [] | Some rows \<Rightarrow> rows) @ cw_buf cw)\<rparr>)
            | Some j \<Rightarrow>
                (cw\<lparr>cw_err := True\<rparr>,
                 w\<lparr>fs_written := fs_written w + 1,
                   files := (files w)(cw_name cw \<mapsto>
                              (case files w (cw_name cw) of None \<Rightarrow> [] | Some rows \<Rightarrow> rows)
                              @ take j (cw_buf cw))\<rparr>)))"

text \<open>The deferred calls run in reverse order when the function returns: \<open>writer.Flush()\<close>,
  then \<open>file.Close()\<close>. No result of \<open>Write\<close>, \<open>Flush\<close> or \<open>Close\<close> is looked at.\<close>

definition saveLogs :: "ExecutionLog list \<Rightarrow> world \<Rightarrow> world" where
  "saveLogs lgs w =
     (case os_Create csvFile w of
        (Some e, w1) \<Rightarrow> Println [''Failed to create CSV file:'', e] w1
      | (None, w1) \<Rightarrow>
          let writer = \<lparr>cw_name = csvFile, cw_buf = [], cw_err = False\<rparr>;
              s1 = csv_Write [''Timestamp'', ''ResponseTime''] (writer, w1);
              s2 = fold (\<lambda>log s. csv_Flush (csv_Write
                          [fmt_rfc3339 w (Timestamp log), fmt_f_seconds w (ResponseTime log)] s))
                        lgs s1
          in snd (csv_Flush s2))"

section \<open>The worker pool of main\<close>

text \<open>
  Lines 136-167 of \<open>main\<close>, as a transition system over the goroutines it creates:
  \<^verbatim>\<open>
  sem := make(chan struct{}, *maxThreads)
  for {
      sem <- struct{}{}
      wg.Add(1)
      go func() {
          defer func() { <-sem; wg.Done() }()
          executeTask(...)
      }()
  }
  \<close>
  \<open>pc\<close> is the statement \<open>main\<close> is at. A goroutine is counted in \<open>looping\<close> while it is
  inside \<open>executeTask\<close>, in \<open>leaving\<close> once \<open>executeTask\<close> has ended (it has no \<open>return\<close>, so
  only a panic ends it) and the deferred function has not yet received from \<open>sem\<close>, and in
  \<open>finishing\<close> between that receive and \<open>wg.Done()\<close>.
\<close>

datatype main_pc = AtSend | AtAdd | AtGo

record pool =
  sem :: nat
  wg :: int
  pc :: main_pc
  looping :: nat
  leaving :: nat
  finishing :: nat

datatype pool_action = Send | Add | Go | Leave | Receive | Done

text \<open>A step of one goroutine, or \<open>None\<close> when that goroutine cannot move: a send blocks
  while the buffer of the channel is full (a channel without buffer hands the element to a
  waiting receiver), a receive blocks while it is empty.\<close>

fun pool_step :: "nat \<Rightarrow> pool_action \<Rightarrow> pool \<Rightarrow> pool option" where
  "pool_step cap Send s =
     (if pc s \<noteq> AtSend then None
      else if sem s < cap then Some (s\<lparr>sem := sem s + 1, pc := AtAdd\<rparr>)
      else if sem s = 0 \<and> 0 < leaving s
        then Some (s\<lparr>leaving := leaving s - 1, finishing := finishing s + 1, pc := AtAdd\<rparr>)
      else None)"
| "pool_step cap Add s =
     (if pc s = AtAdd then Some (s\<lparr>wg := wg s + 1, pc := AtGo\<rparr>) else None)"
| "pool_step cap Go s =
     (if pc s = AtGo then Some (s\<lparr>looping := looping s + 1, pc := AtSend\<rparr>) else None)"
| "pool_step cap Leave s =
     (if 0 < looping s then Some (s\<lparr>looping := looping s - 1, leaving := leaving s + 1\<rparr>) else None)"
| "pool_step cap Receive s =
     (if 0 < leaving s \<and> 0 < sem s
      then Some (s\<lparr>sem := sem s - 1, leaving := leaving s - 1, finishing := finishing s + 1\<rparr>)
      else None)"
| "pool_step cap Done s =
     (if 0 < finishing s then Some (s\<lparr>finishing := finishing s - 1, wg := wg s - 1\<rparr>) else None)"

fun pool_steps :: "nat \<Rightarrow> pool_action list \<Rightarrow> pool \<Rightarrow> pool option" where
  "pool_steps cap [] s = Some s"
| "pool_steps cap (a # as) s =
     (case pool_step cap a s of None \<Rightarrow> None | Some s' \<Rightarrow> pool_steps cap as s')"

definition pool_init :: pool where
  "pool_init = \<lparr>sem = 0, wg = 0, pc = AtSend, looping = 0, leaving = 0, finishing = 0\<rparr>"

text \<open>The pool after a schedule of steps: \<open>make\<close> panics for a negative capacity;
  \<open>Inr None\<close> says that the schedule asks a blocked goroutine to move.\<close>

definition main_pool :: "int \<Rightarrow> pool_action list \<Rightarrow> error + pool option" where
  "main_pool maxThreads schedule =
     (if maxThreads < 0 then Inl (Panic ''makechan: size out of range'')
      else Inr (pool_steps (nat maxThreads) schedule pool_init))"

text \<open>The spawns \<open>main\<close> has taken a slot for and not yet performed.\<close>

definition pool_pending :: "pool \<Rightarrow> nat" where
  "pool_pending s = (if pc s = AtSend then 0 else 1)"

section \<open>The shared slice, its mutex and the signal handler\<close>

text \<open>
  Lines 141-152 of \<open>main\<close> and lines 229-231 of \<open>executeTask\<close>, as a transition system:
  \<^verbatim>\<open>
  go func() {                        logMutex.Lock()
      <-signalChan                   *logs = append(*logs, ExecutionLog{...})
      fmt.Println(...)               logMutex.Unlock()
      saveLogs(logs)
      os.Exit(0)
  }()
  \<close>
  Worker \<open>i\<close> is \<open>Working\<close> outside these three lines, \<open>Locked\<close> after \<open>Lock\<close> and
  \<open>Appended\<close> after the append. \<open>sh_signal\<close> counts the signals buffered in \<open>signalChan\<close>
  (capacity 1; \<open>signal.Notify\<close> drops a signal the channel has no room for). \<open>sh_flushes\<close>
  lists the arguments \<open>saveLogs\<close> was called with. After \<open>os.Exit\<close> nothing moves.
\<close>

datatype worker_pc = Working | Locked | Appended

datatype handler_pc = Waiting | Received | Announced | Saved | Exited

record shutdown =
  sh_logs :: "ExecutionLog list"
  sh_mutex :: "nat option"
  sh_worker :: "nat \<Rightarrow> worker_pc"
  sh_signal :: nat
  sh_handler :: handler_pc
  sh_flushes :: "ExecutionLog list list"

datatype shutdown_action =
    WLock nat | WAppend nat ExecutionLog | WUnlock nat
  | Signal | HReceive | HPrintln | HSaveLogs | HExit

fun shutdown_step :: "shutdown_action \<Rightarrow> shutdown \<Rightarrow> shutdown option" where
  "shutdown_step a s =
     (if sh_handler s = Exited then None
      else case a of
        WLock i \<Rightarrow>
          (if sh_worker s i = Working \<and> sh_mutex s = None
           then Some (s\<lparr>sh_mutex := Some i, sh_worker := (sh_worker s)(i := Locked)\<rparr>) else None)
      | WAppend i x \<Rightarrow>
          (if sh_worker s i = Locked
           then Some (s\<lparr>sh_logs := sh_logs s @ [x], sh_worker := (sh_worker s)(i := Appended)\<rparr>)
           else None)
      | WUnlock i \<Rightarrow>
          (if sh_worker s i = Appended
           then Some (s\<lparr>sh_mutex := None, sh_worker := (sh_worker s)(i := Working)\<rparr>) else None)
      | Signal \<Rightarrow> Some (s\<lparr>sh_signal := min 1 (sh_signal s + 1)\<rparr>)
      | HReceive \<Rightarrow>
          (if sh_handler s = Waiting \<and> 0 < sh_signal s
           then Some (s\<lparr>sh_signal := sh_signal s - 1, sh_handler := Received\<rparr>) else None)
      | HPrintln \<Rightarrow>
          (if sh_handler s = Received then Some (s\<lparr>sh_handler := Announced\<rparr>) else None)
      | HSaveLogs \<Rightarrow>
          (if sh_handler s = Announced
           then Some (s\<lparr>sh_flushes := sh_flushes s @ [sh_logs s], sh_handler := Saved\<rparr>) else None)
      | HExit \<Rightarrow>
          (if sh_handler s = Saved then Some (s\<lparr>sh_handler := Exited\<rparr>) else None))"

fun shutdown_steps :: "shutdown_action list \<Rightarrow> shutdown \<Rightarrow> shutdown option" where
  "shutdown_steps [] s = Some s"
| "shutdown_steps (a # as) s =
     (case shutdown_step a s of None \<Rightarrow> None | Some s' \<Rightarrow> shutdown_steps as s')"

definition shutdown_init :: shutdown where
  "shutdown_init =
     \<lparr>sh_logs = [], sh_mutex = None, sh_worker = (\<lambda>i. Working), sh_signal = 0,
      sh_handler = Waiting, sh_flushes = []\<rparr>"

section \<open>Concrete inputs\<close>

text \<open>A world in which no time passes between clock readings, the random source counts up,
  every process succeeds at once and the file system works.\<close>

definition world0 :: world where
  "world0 =
     \<lparr>clock = 0, elapse = (\<lambda>k. 0), tick = 0, rand_src = (\<lambda>k. k), rand_no = 0,
      proc = (\<lambda>k. \<lparr>pr_stdout = [], pr_stderr = [], pr_err = None\<rparr>), execs = [], stdout = [],
      logs = [], fs_create = (\<lambda>k. None), fs_created = 0, fs_write = (\<lambda>k. None), fs_written = 0,
      files = Map.empty, fmt_rfc3339 = fmt_d, fmt_f_seconds = fmt_d, fmt_v_seconds = fmt_d\<rparr>"

definition state0 :: task_state where
  "state0 = \<lparr>queryCount = 0, lastQueryTime = 0, firstLoop = True, packageName = []\<rparr>"

definition args_call :: CommandLineArgs where
  "args_call =
     \<lparr>MaxThreads = 1, MaxQPS = 1, Mode = ''call'', PackageName = ''testABC'',
      FunctionName = ''Main'', Remote = ''localhost:26657'', KeyName = ''Dev'', PkgDir = ''.'',
      ChainID = ''dev''\<rparr>"

text \<open>Worlds in which \<open>os.Create\<close> fails, in which every write to a file fails before any
  row gets through, and in which the log file already has a row; and a log of two samples.\<close>

definition world_create_fails :: world where
  "world_create_fails = world0\<lparr>fs_create := (\<lambda>k. Some ''permission denied'')\<rparr>"

definition world_write_fails :: world where
  "world_write_fails = world0\<lparr>fs_write := (\<lambda>k. Some 0)\<rparr>"

definition world_old_file :: world where
  "world_old_file = world0\<lparr>files := [''pc_profiler.csv'' \<mapsto> [[''old'', ''row'']]]\<rparr>"

definition logs2 :: "ExecutionLog list" where
  "logs2 = [\<lparr>Timestamp = 5, ResponseTime = 3\<rparr>, \<lparr>Timestamp = 9, ResponseTime = 2\<rparr>]"

text \<open>A world in which the \<open>k\<close>-th clock observation comes \<open>k + 1\<close> nanoseconds after the one
  before; the composite mode with a configured package name, and without one.\<close>

definition world_ticking :: world where
  "world_ticking = world0\<lparr>elapse := (\<lambda>k. k + 1)\<rparr>"

definition args_pinned :: CommandLineArgs where
  "args_pinned =
     \<lparr>MaxThreads = 1, MaxQPS = 2, Mode = ''addpkg+call'', PackageName = ''pinned'',
      FunctionName = [], Remote = ''localhost:26657'', KeyName = ''Dev'', PkgDir = ''.'',
      ChainID = ''dev''\<rparr>"

definition args_composite :: CommandLineArgs where
  "args_composite = args_pinned\<lparr>PackageName := []\<rparr>"

text \<open>A world whose random source always yields 0.\<close>

definition world_same :: world where
  "world_same = world0\<lparr>rand_src := (\<lambda>k. 0)\<rparr>"

text \<open>The command \<open>generateCommand\<close> makes for a mode and a package name with the other
  arguments of \<open>args\<close>; and the argument vectors of the processes a run has started.\<close>

definition command_for :: "string \<Rightarrow> string \<Rightarrow> CommandLineArgs \<Rightarrow> string" where
  "command_for mode p args =
     (case generateCommand mode p (FunctionName args) (Remote args) (KeyName args) (PkgDir args)
             (ChainID args) world0 of
        Inl e \<Rightarrow> [] | Inr (cmd, w) \<Rightarrow> cmd)"

definition commands_run :: "error + task_state \<times> world \<Rightarrow> string list list" where
  "commands_run r = (case r of Inl e \<Rightarrow> [] | Inr (st, w) \<Rightarrow> map ex_argv (execs w))"

section \<open>Relating the world before and after a piece of code\<close>

text \<open>The clock has not gone back, and the processes run in between were all given the
  password line on their standard input.\<close>

definition later_world :: "string \<Rightarrow> world \<Rightarrow> world \<Rightarrow> bool" where
  "later_world pw w w' \<longleftrightarrow>
     clock w \<le> clock w' \<and>
     (\<exists>new. execs w' = execs w @ new \<and>
        (\<forall>e \<in> set new. ex_stdin e = (if pw \<noteq> [] then pw @ [CHR 0x0A] else [CHR 0x0A])))"

section \<open>Invariants of the two transition systems\<close>

text \<open>Every goroutine that is in \<open>executeTask\<close> or has not yet given its slot back, and the
  spawn \<open>main\<close> is about to perform, hold one element of \<open>sem\<close> each.\<close>

definition pool_inv :: "nat \<Rightarrow> pool \<Rightarrow> bool" where
  "pool_inv cap s \<longleftrightarrow> looping s + leaving s + pool_pending s = sem s \<and> sem s \<le> cap"

text \<open>\<open>saveLogs\<close> has been called once when the handler is past that call, and not before.\<close>

definition shutdown_inv :: "shutdown \<Rightarrow> bool" where
  "shutdown_inv s \<longleftrightarrow>
     length (sh_flushes s) = (if sh_handler s = Saved \<or> sh_handler s = Exited then 1 else 0)"

text \<open>A writer without error on the file \<open>name\<close> in a world whose writes all succeed;
  \<open>rows\<close> are the rows in the file followed by the rows still in the writer's buffer.\<close>

definition csv_ok :: "string \<Rightarrow> string list list \<Rightarrow> csv_writer \<times> world \<Rightarrow> bool" where
  "csv_ok name rows s \<longleftrightarrow>
     (case s of (cw, w) \<Rightarrow>
        \<not> cw_err cw \<and> cw_name cw = name \<and> (\<forall>k. fs_write w k = None)
        \<and> (\<exists>F. files w name = Some F \<and> F @ cw_buf cw = rows))"

section \<open>Counting the operations of a throttle window\<close>

text \<open>The number of decisions that let an operation through and counted it in the window
  that started at \<open>W\<close>; and the number of operations the window that started at \<open>W\<close> can
  still take when the worker is in state \<open>st\<close>.\<close>

definition admitted_in :: "int \<Rightarrow> decision list \<Rightarrow> nat" where
  "admitted_in W ds = length (filter (\<lambda>d. d_admitted d \<and> d_window d = W) ds)"


section \<open>Properties of randomString\<close>

lemma randomString_loop_length:
  "length (fst (randomString_loop is b w)) = length b"
  by (induction "is" arbitrary: b w) (auto simp: rand_Intn_def split: prod.splits)

lemma charset_nth_mod: "charset ! (r mod length charset) \<in> set charset"
  by (rule nth_mem) (simp add: charset_def)

lemma randomString_loop_charset:
  "j < length b \<Longrightarrow> j \<in> set is \<or> b ! j \<in> set charset
     \<Longrightarrow> fst (randomString_loop is b w) ! j \<in> set charset"
proof (induction "is" arbitrary: b w)
  case Nil
  then show ?case by simp
next
  case (Cons i "is")
  let ?b = "b[i := charset ! (rand_src w (rand_no w) mod length charset)]"
  have "j \<in> set is \<or> ?b ! j \<in> set charset"
    using Cons.prems charset_nth_mod by (cases "j = i") auto
  moreover have "j < length ?b" using Cons.prems by simp
  ultimately show ?case
    using Cons.IH [of ?b] by (simp add: rand_Intn_def)
qed

lemma randomString_loop_world:
  "snd (randomString_loop is b w) = w\<lparr>rand_no := rand_no w + length is\<rparr>"
  by (induction "is" arbitrary: b w) (auto simp: rand_Intn_def split: prod.splits)

lemma randomString_ok:
  assumes "0 \<le> n"
  shows "\<exists>s. randomString n w = Inr (s, w\<lparr>rand_no := rand_no w + nat n\<rparr>)
           \<and> int (length s) = n \<and> set s \<subseteq> set charset"
proof -
  let ?b = "replicate (nat n) (CHR 0x00)"
  let ?r = "randomString_loop [0..<length ?b] ?b w"
  have "randomString n w = Inr (fst ?r, snd ?r)"
    using assms by (simp add: randomString_def Let_def)
  then have r: "randomString n w = Inr (fst ?r, w\<lparr>rand_no := rand_no w + nat n\<rparr>)"
    by (simp add: randomString_loop_world)
  have len: "length (fst ?r) = nat n"
    by (simp add: randomString_loop_length)
  have "\<forall>j < length (fst ?r). fst ?r ! j \<in> set charset"
    using randomString_loop_charset [of _ ?b "[0..<length ?b]" w] len by simp
  then have sub: "set (fst ?r) \<subseteq> set charset"
    by (auto simp: in_set_conv_nth)
  have "int (length (fst ?r)) = n" using len assms by simp
  with r sub show ?thesis by blast
qed

lemma randomString_MaxPackageLength:
  "\<exists>s. randomString MaxPackageLength w = Inr (s, w\<lparr>rand_no := rand_no w + 20\<rparr>)
       \<and> length s = 20 \<and> s \<noteq> [] \<and> set s \<subseteq> set charset"
proof -
  obtain s where s: "randomString 20 w = Inr (s, w\<lparr>rand_no := rand_no w + nat 20\<rparr>)"
    "int (length s) = 20" "set s \<subseteq> set charset"
    using randomString_ok [of 20 w] by auto
  from s(2) have "length s = 20" by simp
  moreover from this have "s \<noteq> []" by auto
  ultimately show ?thesis using s by (auto simp: MaxPackageLength_def)
qed



section \<open>Effects of the building blocks\<close>

lemma pass_time_fields [simp]:
  "clock (pass_time w) = clock w + int (elapse w (tick w))"
  "tick (pass_time w) = tick w + 1"
  "execs (pass_time w) = execs w"
  "logs (pass_time w) = logs w"
  "stdout (pass_time w) = stdout w"
  "rand_no (pass_time w) = rand_no w"
  "elapse (pass_time w) = elapse w"
  "rand_src (pass_time w) = rand_src w"
  "proc (pass_time w) = proc w"
  by (simp_all add: pass_time_def)

lemma Println_fields [simp]:
  "clock (Println xs w) = clock w"
  "tick (Println xs w) = tick w"
  "execs (Println xs w) = execs w"
  "logs (Println xs w) = logs w"
  "rand_no (Println xs w) = rand_no w"
  "elapse (Println xs w) = elapse w"
  "rand_src (Println xs w) = rand_src w"
  "proc (Println xs w) = proc w"
  by (simp_all add: Println_def)

lemma executeCommand_fields:
  "execs (snd (executeCommand c pw w)) = execs w @
     [\<lparr>ex_argv = [''bash'', ''-c'', c],
       ex_stdin = (if pw \<noteq> [] then pw @ [CHR 0x0A] else [CHR 0x0A]),
       ex_begin = clock w, ex_end = clock w + int (elapse w (tick w))\<rparr>]"
  "clock (snd (executeCommand c pw w)) = clock w + int (elapse w (tick w))"
  "tick (snd (executeCommand c pw w)) = tick w + 1"
  "logs (snd (executeCommand c pw w)) = logs w"
  "rand_no (snd (executeCommand c pw w)) = rand_no w"
  "elapse (snd (executeCommand c pw w)) = elapse w"
  "rand_src (snd (executeCommand c pw w)) = rand_src w"
  by (simp_all add: executeCommand_def Let_def split: option.splits)

lemma generateCommand_world:
  assumes "generateCommand m p f r k d c w = Inr (cmd, w')"
  shows "w' = (if p = [] then w\<lparr>rand_no := rand_no w + 20\<rparr> else w)"
proof (cases "p = []")
  case True
  obtain s where s: "randomString MaxPackageLength w = Inr (s, w\<lparr>rand_no := rand_no w + 20\<rparr>)"
    using randomString_MaxPackageLength [of w] by blast
  show ?thesis using assms True s
    by (auto simp: generateCommand_def Let_def split: if_splits)
next
  case False
  then show ?thesis using assms
    by (auto simp: generateCommand_def Let_def split: if_splits)
qed


lemma later_world_refl: "later_world pw w w"
  by (simp add: later_world_def)

lemma later_world_trans:
  "later_world pw w w1 \<Longrightarrow> later_world pw w1 w2 \<Longrightarrow> later_world pw w w2"
  unfolding later_world_def by (elim conjE exE) (rule conjI, simp, rule_tac x = "new @ newa" in exI, auto)

lemma later_world_same:
  "clock w \<le> clock w' \<Longrightarrow> execs w' = execs w \<Longrightarrow> later_world pw w w'"
  by (simp add: later_world_def)

lemma later_world_executeCommand: "later_world pw w (snd (executeCommand c pw w))"
  by (simp add: later_world_def executeCommand_fields)

lemma later_world_time_Now: "later_world pw w (snd (time_Now w))"
  by (simp add: later_world_def time_Now_def Let_def)

lemma later_world_time_Since: "later_world pw w (snd (time_Since t w))"
  by (simp add: later_world_def time_Since_def time_Now_def Let_def)

lemma later_world_firstMode:
  assumes "executeTask_firstMode m (st, w) = Inr (fm, st', w')"
  shows "later_world pw w w' \<and> queryCount st' = queryCount st \<and> lastQueryTime st' = lastQueryTime st"
proof -
  obtain s where s: "randomString MaxPackageLength w = Inr (s, w\<lparr>rand_no := rand_no w + 20\<rparr>)"
    using randomString_MaxPackageLength [of w] by blast
  show ?thesis using assms s
    by (auto simp: later_world_def split: if_splits)
qed

lemma later_world_first:
  assumes "executeTask_first args pw fm (st, w) = Inr (start, st', w')"
  shows "later_world pw w w' \<and> st' = st"
proof -
  from assms obtain cmd w1 where g:
    "generateCommand fm (packageName st) (FunctionName args) (Remote args)
             (KeyName args) (PkgDir args) (ChainID args) w = Inr (cmd, w1)"
    by (auto split: sum.splits)
  have w1: "clock w1 = clock w" "execs w1 = execs w"
    using generateCommand_world [OF g] by (auto split: if_splits)
  show ?thesis using assms g w1
    by (auto simp: later_world_def Let_def time_Now_def executeCommand_fields
             split: prod.splits option.splits if_splits
             dest!: arg_cong [where f = snd])
qed


lemma later_world_second:
  assumes "executeTask_second args pw (st, w) = Inr (st', w')"
  shows "later_world pw w w' \<and> queryCount st' = queryCount st \<and> lastQueryTime st' = lastQueryTime st"
proof (cases "Mode args = ''addpkg+call''")
  case False
  then show ?thesis using assms by (simp add: later_world_refl)
next
  case True
  with assms obtain cmd w1 where g:
    "generateCommand ''call'' (packageName st) (FunctionName args) (Remote args)
             (KeyName args) (PkgDir args) (ChainID args) w = Inr (cmd, w1)"
    by (auto split: sum.splits)
  have w1: "clock w1 = clock w" "execs w1 = execs w"
    using generateCommand_world [OF g] by (auto split: if_splits)
  show ?thesis using assms g w1 True
    by (auto simp: later_world_def Let_def executeCommand_fields
             split: prod.splits if_splits dest!: arg_cong [where f = snd])
qed

lemma later_world_record:
  assumes "executeTask_record start (st, w) = (st', w')"
  shows "later_world pw w w' \<and> queryCount st' = queryCount st \<and> lastQueryTime st' = lastQueryTime st"
  using assms
  by (auto simp: later_world_def Let_def time_Since_def time_Now_def split: prod.splits)

lemma later_world_work:
  assumes "executeTask_work args pw (st, w) = Inr (st', w')"
  shows "later_world pw w w' \<and> queryCount st' = queryCount st \<and> lastQueryTime st' = lastQueryTime st"
proof -
  from assms obtain fm st1 w1 where a: "executeTask_firstMode (Mode args) (st, w) = Inr (fm, st1, w1)"
    by (auto simp: executeTask_work_def split: sum.splits)
  with assms obtain start st2 w2 where b: "executeTask_first args pw fm (st1, w1) = Inr (start, st2, w2)"
    by (auto simp: executeTask_work_def split: sum.splits)
  with assms a obtain st3 w3 where c: "executeTask_second args pw (st2, w2) = Inr (st3, w3)"
    by (auto simp: executeTask_work_def split: sum.splits)
  with assms a b have d: "executeTask_record start (st3, w3) = (st', w')"
    by (simp add: executeTask_work_def)
  from later_world_firstMode [OF a, of pw] later_world_first [OF b]
    later_world_second [OF c] later_world_record [OF d, of pw]
  show ?thesis by (auto intro: later_world_trans)
qed

lemma later_world_reset:
  assumes "executeTask_reset (st, w) = (st', w')"
  shows "later_world pw w w'"
  using assms
  by (auto simp: later_world_def Let_def time_Since_def time_Now_def split: prod.splits if_splits)

lemma later_world_gate:
  assumes "executeTask_gate q (st, w) = (adm, st', w')"
  shows "later_world pw w w'"
  using assms
  by (auto simp: later_world_def Let_def time_Until_def time_Now_def time_Sleep_def
           split: prod.splits if_splits)

lemma later_world_throttle:
  assumes "executeTask_throttle q (st, w) = (adm, st', w')"
  shows "later_world pw w w'"
proof -
  obtain st1 w1 where r: "executeTask_reset (st, w) = (st1, w1)" by (cases "executeTask_reset (st, w)")
  with assms have "executeTask_gate q (st1, w1) = (adm, st', w')"
    by (simp add: executeTask_throttle_def)
  from later_world_reset [OF r] later_world_gate [OF this] show ?thesis
    by (rule later_world_trans)
qed

lemma later_world_body:
  assumes "executeTask_body args pw (st, w) = Inr (st', w')"
  shows "later_world pw w w'"
proof -
  obtain adm st1 w1 where t: "executeTask_throttle (MaxQPS args) (st, w) = (adm, st1, w1)"
    by (cases "executeTask_throttle (MaxQPS args) (st, w)")
  show ?thesis
  proof (cases adm)
    case True
    with assms t have "executeTask_work args pw (st1, w1) = Inr (st', w')"
      by (simp add: executeTask_body_def)
    from later_world_work [OF this] later_world_throttle [OF t, of pw] show ?thesis
      by (blast intro: later_world_trans)
  next
    case False
    with assms t have "w' = w1" by (simp add: executeTask_body_def)
    with later_world_throttle [OF t, of pw] show ?thesis by simp
  qed
qed

lemma later_world_loop:
  "executeTask_loop n args pw sw = Inr sw' \<Longrightarrow> later_world pw (snd sw) (snd sw')"
proof (induction n arbitrary: sw)
  case 0
  then show ?case by (simp add: later_world_refl)
next
  case (Suc n)
  then obtain sw1 where b: "executeTask_body args pw sw = Inr sw1"
    and l: "executeTask_loop n args pw sw1 = Inr sw'"
    by (auto split: sum.splits)
  from later_world_body [of args pw "fst sw" "snd sw" "fst sw1" "snd sw1"] b
  have "later_world pw (snd sw) (snd sw1)" by simp
  with Suc.IH [OF l] show ?case by (blast intro: later_world_trans)
qed

section \<open>The standard input of the commands\<close>

text \<open>
  C8. Every process that \<open>executeCommand\<close> starts gets the secret on its standard input: the
  password followed by a line break when the password is not empty, and a lone line break
  when it is empty, so the input is never empty. \<open>executeCommand\<close> starts exactly one
  process, and every process started during a run of \<open>executeTask\<close> is started that way.
\<close>

theorem executeCommand_stdin:
  "ex_stdin (last (execs (snd (executeCommand command password w))))
     = (if password \<noteq> [] then password @ [CHR 0x0A] else [CHR 0x0A])
   \<and> length (execs (snd (executeCommand command password w))) = length (execs w) + 1
   \<and> (executeTask n args password w0 = Inr (st, w') \<longrightarrow>
        (\<forall>e \<in> set (execs w'). e \<in> set (execs w0) \<or>
           ex_stdin e = (if password \<noteq> [] then password @ [CHR 0x0A] else [CHR 0x0A])))"
proof -
  have a: "ex_stdin (last (execs (snd (executeCommand command password w))))
     = (if password \<noteq> [] then password @ [CHR 0x0A] else [CHR 0x0A])"
    by (simp add: executeCommand_fields)
  have b: "length (execs (snd (executeCommand command password w))) = length (execs w) + 1"
    by (simp add: executeCommand_fields)
  have c: "\<forall>e \<in> set (execs w'). e \<in> set (execs w0) \<or>
           ex_stdin e = (if password \<noteq> [] then password @ [CHR 0x0A] else [CHR 0x0A])"
    if run: "executeTask n args password w0 = Inr (st, w')"
  proof -
    obtain st1 w1 where i: "executeTask_init args w0 = (st1, w1)"
      by (cases "executeTask_init args w0")
    then have "execs w1 = execs w0"
      by (auto simp: executeTask_init_def time_Now_def Let_def)
    moreover from run i have "later_world password w1 w'"
      using later_world_loop [of n args password "(st1, w1)" "(st, w')"]
      by (simp add: executeTask_def)
    ultimately show ?thesis by (auto simp: later_world_def)
  qed
  from a b c show ?thesis by blast
qed


theorem executeCommand_stdin_witness:
  "\<exists>st w'. executeTask 1 args_call ''pw'' world0 = Inr (st, w')
     \<and> execs w' \<noteq> []
     \<and> (\<forall>e \<in> set (execs w'). e \<in> set (execs world0) \<or> ex_stdin e = ''pw'' @ [CHR 0x0A])"
proof -
  have "case executeTask 1 args_call ''pw'' world0 of
          Inl e \<Rightarrow> False | Inr (st, w) \<Rightarrow> execs w \<noteq> []"
    by (simp add: executeTask_def executeTask_init_def executeTask_body_def
        executeTask_throttle_def executeTask_work_def args_call_def world0_def time_Now_def
        time_Since_def Let_def pass_time_def generateCommand_def executeCommand_def Println_def
        Second_def)
  then obtain st w' where run: "executeTask 1 args_call ''pw'' world0 = Inr (st, w')"
    and ne: "execs w' \<noteq> []"
    by (auto split: sum.splits)
  from executeCommand_stdin [of "''true''" "''pw''" world0 1 args_call world0 st w'] run
  have "\<forall>e \<in> set (execs w'). e \<in> set (execs world0) \<or> ex_stdin e = ''pw'' @ [CHR 0x0A]"
    by simp
  with run ne show ?thesis by blast
qed

section \<open>The bound on the number of workers\<close>

lemma pool_inv_init: "pool_inv cap pool_init"
  by (simp add: pool_inv_def pool_init_def pool_pending_def)

lemma pool_inv_step:
  "pool_inv cap s \<Longrightarrow> pool_step cap a s = Some s' \<Longrightarrow> pool_inv cap s'"
  by (cases a) (auto simp: pool_inv_def pool_pending_def split: if_splits)

lemma pool_inv_steps:
  "pool_inv cap s \<Longrightarrow> pool_steps cap as s = Some s' \<Longrightarrow> pool_inv cap s'"
proof (induction as arbitrary: s)
  case Nil
  then show ?case by simp
next
  case (Cons a as)
  then obtain s1 where "pool_step cap a s = Some s1" "pool_steps cap as s1 = Some s'"
    by (auto split: option.splits)
  with Cons show ?case using pool_inv_step by blast
qed

text \<open>
  C5. In every state \<open>main\<close> can reach, under any schedule of its goroutines and however long
  a worker stays in \<open>executeTask\<close>, at most \<open>maxThreads\<close> goroutines are inside the worker
  loop. \<open>main\<close> takes a slot of \<open>sem\<close> before each spawn and blocks while none is free, so
  spawns do not pile up: at most one spawn is pending, and the goroutines in the loop, those
  that have left it without giving the slot back, and the pending spawn together are as many
  as the elements of \<open>sem\<close>, which are at most \<open>maxThreads\<close>.
\<close>

theorem worker_pool_bounded:
  assumes "main_pool maxThreads schedule = Inr (Some s)"
  shows "int (looping s) \<le> maxThreads
       \<and> looping s + leaving s + pool_pending s = sem s
       \<and> int (sem s) \<le> maxThreads
       \<and> pool_pending s \<le> 1"
proof -
  from assms have nn: "0 \<le> maxThreads"
    and run: "pool_steps (nat maxThreads) schedule pool_init = Some s"
    by (auto simp: main_pool_def split: if_splits)
  from pool_inv_steps [OF pool_inv_init run]
  have "looping s + leaving s + pool_pending s = sem s" "sem s \<le> nat maxThreads"
    by (auto simp: pool_inv_def)
  moreover have "pool_pending s \<le> 1" by (simp add: pool_pending_def)
  ultimately show ?thesis using nn by auto
qed

theorem worker_pool_bounded_witness:
  "main_pool 2 [Send, Add, Go, Send, Add, Go, Leave, Receive, Send, Add, Go, Done]
     = Inr (Some \<lparr>sem = 2, wg = 2, pc = AtSend, looping = 2, leaving = 0, finishing = 0\<rparr>)
   \<and> int (looping \<lparr>sem = 2, wg = 2, pc = AtSend, looping = 2, leaving = 0, finishing = 0\<rparr>) \<le> 2
   \<and> main_pool 2 [Send, Add, Go, Send, Add, Go, Send] = Inr None"
  using worker_pool_bounded [of 2 "[Send, Add, Go, Send, Add, Go, Leave, Receive, Send, Add, Go, Done]"
     "\<lparr>sem = 2, wg = 2, pc = AtSend, looping = 2, leaving = 0, finishing = 0\<rparr>"]
  by (simp add: main_pool_def pool_init_def)

section \<open>The flush on a signal\<close>

lemma shutdown_inv_step:
  "shutdown_inv s \<Longrightarrow> shutdown_step a s = Some s' \<Longrightarrow> shutdown_inv s'"
  by (cases a) (auto simp: shutdown_inv_def split: if_splits)

lemma shutdown_inv_steps:
  "shutdown_inv s \<Longrightarrow> shutdown_steps as s = Some s' \<Longrightarrow> shutdown_inv s'"
proof (induction as arbitrary: s)
  case Nil
  then show ?case by simp
next
  case (Cons a as)
  then obtain s1 where "shutdown_step a s = Some s1" "shutdown_steps as s1 = Some s'"
    by (auto split: option.splits simp del: shutdown_step.simps)
  with Cons show ?case using shutdown_inv_step by blast
qed

lemma shutdown_at_most_one_flush:
  "shutdown_steps as shutdown_init = Some s \<Longrightarrow> length (sh_flushes s) \<le> 1"
  using shutdown_inv_steps [of shutdown_init as s]
  by (simp add: shutdown_inv_def shutdown_init_def split: if_splits)

text \<open>
  C2. The handler calls \<open>saveLogs(logs)\<close> without taking \<open>logMutex\<close>. In the schedule below
  worker 0 has locked the mutex and appended a sample and has not unlocked yet when the signal
  arrives; a second worker cannot lock the mutex in that state, yet the handler's call of
  \<open>saveLogs\<close> goes ahead and reads the slice inside worker 0's critical section.
\<close>

theorem shutdown_flush_inside_critical_section:
  "shutdown_steps [WLock 0, WAppend 0 \<lparr>Timestamp = 5, ResponseTime = 3\<rparr>, Signal, HReceive, HPrintln]
     shutdown_init
     = Some \<lparr>sh_logs = [\<lparr>Timestamp = 5, ResponseTime = 3\<rparr>], sh_mutex = Some 0,
             sh_worker = (\<lambda>i. Working)(0 := Appended), sh_signal = 0, sh_handler = Announced,
             sh_flushes = []\<rparr>
   \<and> shutdown_step (WLock 1)
        \<lparr>sh_logs = [\<lparr>Timestamp = 5, ResponseTime = 3\<rparr>], sh_mutex = Some 0,
         sh_worker = (\<lambda>i. Working)(0 := Appended), sh_signal = 0, sh_handler = Announced,
         sh_flushes = []\<rparr> = None
   \<and> shutdown_step HSaveLogs
        \<lparr>sh_logs = [\<lparr>Timestamp = 5, ResponseTime = 3\<rparr>], sh_mutex = Some 0,
         sh_worker = (\<lambda>i. Working)(0 := Appended), sh_signal = 0, sh_handler = Announced,
         sh_flushes = []\<rparr>
     = Some \<lparr>sh_logs = [\<lparr>Timestamp = 5, ResponseTime = 3\<rparr>], sh_mutex = Some 0,
             sh_worker = (\<lambda>i. Working)(0 := Appended), sh_signal = 0, sh_handler = Saved,
             sh_flushes = [[\<lparr>Timestamp = 5, ResponseTime = 3\<rparr>]]\<rparr>"
  by (simp add: shutdown_init_def)


section \<open>What saveLogs writes and prints\<close>

lemma csv_Write_stdout: "stdout (snd (csv_Write row s)) = stdout (snd s)"
  by (cases s) auto

lemma csv_Flush_stdout: "stdout (snd (csv_Flush s)) = stdout (snd s)"
  by (cases s) (auto split: option.splits)

lemma csv_fold_stdout:
  "stdout (snd (fold (\<lambda>log s. csv_Flush (csv_Write (row log) s)) lgs s)) = stdout (snd s)"
  by (induction lgs arbitrary: s) (simp_all add: csv_Flush_stdout csv_Write_stdout)

lemma saveLogs_create_error:
  assumes "fs_create w (fs_created w) = Some e"
  shows "stdout (saveLogs lgs w) = stdout w @ [''Failed to create CSV file: '' @ e]"
    and "files (saveLogs lgs w) = files w"
  using assms by (simp_all add: saveLogs_def os_Create_def Println_def)

lemma saveLogs_no_report:
  assumes "fs_create w (fs_created w) = None"
  shows "stdout (saveLogs lgs w) = stdout w"
  using assms
  by (simp add: saveLogs_def os_Create_def Let_def csv_Flush_stdout csv_fold_stdout csv_Write_stdout)

lemma csv_ok_Write: "csv_ok name rows s \<Longrightarrow> csv_ok name (rows @ [row]) (csv_Write row s)"
  by (cases s) (auto simp: csv_ok_def)

lemma csv_ok_Flush:
  "csv_ok name rows s \<Longrightarrow> csv_ok name rows (csv_Flush s) \<and> (cw_buf (fst s) \<noteq> [] \<longrightarrow> cw_buf (fst (csv_Flush s)) = [])"
  by (cases s) (auto simp: csv_ok_def)

lemma csv_ok_fold:
  "csv_ok name rows s \<Longrightarrow>
     csv_ok name (rows @ map row lgs) (fold (\<lambda>log s. csv_Flush (csv_Write (row log) s)) lgs s)"
proof (induction lgs arbitrary: rows s)
  case Nil
  then show ?case by simp
next
  case (Cons l lgs)
  from csv_ok_Flush [OF csv_ok_Write [OF Cons.prems, of "row l"]]
  have "csv_ok name (rows @ [row l]) (csv_Flush (csv_Write (row l) s))" by simp
  from Cons.IH [OF this] show ?case by simp
qed

lemma csv_ok_final:
  assumes "csv_ok name rows s"
  shows "files (snd (csv_Flush s)) name = Some rows"
  using assms by (cases s) (auto simp: csv_ok_def)

lemma saveLogs_success:
  assumes "fs_create w (fs_created w) = None" "\<forall>k. fs_write w k = None"
  shows "files (saveLogs lgs w) csvFile =
    Some ([''Timestamp'', ''ResponseTime''] #
          map (\<lambda>log. [fmt_rfc3339 w (Timestamp log), fmt_f_seconds w (ResponseTime log)]) lgs)"
proof -
  let ?w1 = "w\<lparr>fs_created := fs_created w + 1, files := (files w)(csvFile \<mapsto> [])\<rparr>"
  let ?s1 = "csv_Write [''Timestamp'', ''ResponseTime'']
               (\<lparr>cw_name = csvFile, cw_buf = [], cw_err = False\<rparr>, ?w1)"
  let ?row = "\<lambda>log. [fmt_rfc3339 w (Timestamp log), fmt_f_seconds w (ResponseTime log)]"
  have "csv_ok csvFile [[''Timestamp'', ''ResponseTime'']] ?s1"
    using assms(2) by (simp add: csv_ok_def)
  from csv_ok_final [OF csv_ok_fold [OF this, of ?row lgs]]
  show ?thesis using assms(1) by (simp add: saveLogs_def os_Create_def Let_def)
qed


text \<open>
  C6. When the file can be created and written, \<open>saveLogs\<close> leaves in the file of the fixed
  name \<open>pc_profiler.csv\<close>, whatever the file held before, the header row
  \<open>Timestamp,ResponseTime\<close> followed by exactly one row per sample, in the order of the log:
  the sample's timestamp as \<open>Time.Format(time.RFC3339)\<close> renders it and its response time as
  \<open>fmt.Sprintf("%f", d.Seconds())\<close> renders it. The number of data rows is the number of
  samples.
\<close>

theorem saveLogs_rows:
  assumes "fs_create w (fs_created w) = None" and "\<forall>k. fs_write w k = None"
  shows "csvFile = ''pc_profiler.csv''
       \<and> files (saveLogs lgs w) ''pc_profiler.csv'' =
           Some ([''Timestamp'', ''ResponseTime''] #
                 map (\<lambda>log. [fmt_rfc3339 w (Timestamp log), fmt_f_seconds w (ResponseTime log)]) lgs)
       \<and> (\<exists>rows. files (saveLogs lgs w) ''pc_profiler.csv'' = Some rows
             \<and> length (tl rows) = length lgs)"
proof -
  have n: "csvFile = ''pc_profiler.csv''" by (simp add: csvFile_def)
  from saveLogs_success [OF assms, of lgs] n
  have f: "files (saveLogs lgs w) ''pc_profiler.csv'' =
           Some ([''Timestamp'', ''ResponseTime''] #
                 map (\<lambda>log. [fmt_rfc3339 w (Timestamp log), fmt_f_seconds w (ResponseTime log)]) lgs)"
    by simp
  then have "\<exists>rows. files (saveLogs lgs w) ''pc_profiler.csv'' = Some rows
             \<and> length (tl rows) = length lgs"
    by simp
  with n f show ?thesis by blast
qed

theorem saveLogs_rows_witness:
  "fs_create world_old_file (fs_created world_old_file) = None
   \<and> (\<forall>k. fs_write world_old_file k = None)
   \<and> files world_old_file ''pc_profiler.csv'' = Some [[''old'', ''row'']]
   \<and> files (saveLogs logs2 world_old_file) ''pc_profiler.csv'' =
       Some [[''Timestamp'', ''ResponseTime''], [''5'', ''3''], [''9'', ''2'']]"
proof -
  have a: "fs_create world_old_file (fs_created world_old_file) = None"
    by (simp add: world_old_file_def world0_def)
  have b: "\<forall>k. fs_write world_old_file k = None"
    by (simp add: world_old_file_def world0_def)
  have c: "files world_old_file ''pc_profiler.csv'' = Some [[''old'', ''row'']]"
    by (simp add: world_old_file_def)
  have d: "fmt_rfc3339 world_old_file = fmt_d" "fmt_f_seconds world_old_file = fmt_d"
    by (simp_all add: world_old_file_def world0_def)
  have e: "fmt_d 5 = ''5''" "fmt_d 3 = ''3''" "fmt_d 9 = ''9''" "fmt_d 2 = ''2''"
    by (simp_all add: fmt_d_def fmt_nat.simps)
  from saveLogs_rows [OF a b, of logs2] have
    "files (saveLogs logs2 world_old_file) ''pc_profiler.csv'' =
       Some ([''Timestamp'', ''ResponseTime''] #
             map (\<lambda>log. [fmt_rfc3339 world_old_file (Timestamp log),
                         fmt_f_seconds world_old_file (ResponseTime log)]) logs2)"
    by blast
  then have
    "files (saveLogs logs2 world_old_file) ''pc_profiler.csv'' =
       Some [[''Timestamp'', ''ResponseTime''], [''5'', ''3''], [''9'', ''2'']]"
    by (simp add: d e logs2_def)
  with a b c show ?thesis by blast
qed

text \<open>
  C7, as the code has it. \<open>saveLogs\<close> has no failing branch: it always returns. When
  \<open>os.Create\<close> fails, it prints one line, \<open>Failed to create CSV file:\<close> and the error, and
  leaves the files alone. When the file was created, it prints nothing, whatever becomes of
  the writes: the results of \<open>Write\<close> and \<open>Flush\<close> are dropped, so a failed write is not
  reported.
\<close>

theorem saveLogs_reports_create_error_only:
  "(fs_create w (fs_created w) = Some e \<longrightarrow>
      stdout (saveLogs lgs w) = stdout w @ [''Failed to create CSV file: '' @ e]
      \<and> files (saveLogs lgs w) = files w)
   \<and> (fs_create w' (fs_created w') = None \<longrightarrow> stdout (saveLogs lgs w') = stdout w')"
  using saveLogs_create_error [of w e lgs] saveLogs_no_report [of w' lgs] by blast

theorem saveLogs_reports_create_error_only_witness:
  "fs_create world_create_fails (fs_created world_create_fails) = Some ''permission denied''
   \<and> fs_create world_write_fails (fs_created world_write_fails) = None
   \<and> stdout (saveLogs logs2 world_create_fails) = [''Failed to create CSV file: permission denied'']
   \<and> files (saveLogs logs2 world_create_fails) = files world_create_fails
   \<and> stdout (saveLogs logs2 world_write_fails) = []"
  using saveLogs_reports_create_error_only
    [of world_create_fails "''permission denied''" logs2 world_write_fails]
  by (simp add: world_create_fails_def world_write_fails_def world0_def)

text \<open>The claim C7 as stated fails where a write fails: the file is created, the first write
  to it fails, no row reaches the file, and nothing is printed.\<close>

theorem saveLogs_write_error_silent:
  "fs_create world_write_fails (fs_created world_write_fails) = None
   \<and> fs_write world_write_fails 0 = Some 0
   \<and> stdout world_write_fails = []
   \<and> stdout (saveLogs logs2 world_write_fails) = []
   \<and> files (saveLogs logs2 world_write_fails) csvFile = Some []"
  by (simp add: world_write_fails_def world0_def logs2_def saveLogs_def os_Create_def Let_def)

section \<open>One cycle of the composite mode\<close>

text \<open>A cycle is what an iteration of the loop does after the throttle has let it through
  (\<open>executeTask_work\<close>). The lemmas below run it symbolically in the mode \<open>addpkg+call\<close>.\<close>

lemma generateCommand_addpkg:
  "p \<noteq> [] \<Longrightarrow> \<exists>cmd. \<forall>v. generateCommand ''addpkg'' p f r k d c v = Inr (cmd, v)"
  by (simp add: generateCommand_def)

lemma generateCommand_call:
  "p \<noteq> [] \<Longrightarrow> \<exists>cmd. \<forall>v. generateCommand ''call'' p f r k d c v = Inr (cmd, v)"
  by (simp add: generateCommand_def)

lemma generateCommand_addpkg_inj:
  assumes "generateCommand ''addpkg'' p f r k d c v = Inr (cmd, v1)"
    and "generateCommand ''addpkg'' q f r k d c v' = Inr (cmd, v2)"
    and "p \<noteq> []" "q \<noteq> []"
  shows "p = q"
proof -
  let ?S = "apostrophe @ '' --pkgdir '' @ d
                 @ '' --gas-fee '' @ fmt_d gasFee @ ''ugnot --gas-wanted '' @ fmt_d gasWanted
                 @ '' --broadcast --chainid '' @ c @ '' --remote '' @ r
                 @ '' --insecure-password-stdin=true '' @ k"
  let ?P = "''gnokey maketx addpkg --pkgpath '' @ apostrophe @ ''gno.land/r/''"
  from assms(1,3) have "cmd = ?P @ p @ ?S" by (simp add: generateCommand_def)
  moreover from assms(2,4) have "cmd = ?P @ q @ ?S" by (simp add: generateCommand_def)
  ultimately have "?P @ p @ ?S = ?P @ q @ ?S" by (rule trans [OF sym])
  then show ?thesis by (simp only: same_append_eq append_same_eq)
qed

lemma generateCommand_call_inj:
  assumes "generateCommand ''call'' p f r k d c v = Inr (cmd, v1)"
    and "generateCommand ''call'' q f r k d c v' = Inr (cmd, v2)"
    and "p \<noteq> []" "q \<noteq> []"
  shows "p = q"
proof -
  let ?S = "apostrophe @ '' --func '' @ (if f = [] then ''Main'' else f)
                 @ '' --gas-fee '' @ fmt_d gasFee @ ''ugnot --gas-wanted '' @ fmt_d gasWanted
                 @ '' --broadcast --chainid '' @ c @ '' --remote '' @ r
                 @ '' --insecure-password-stdin=true '' @ k"
  let ?P = "''gnokey maketx call --pkgpath '' @ apostrophe @ ''gno.land/r/''"
  from assms(1,3) have "cmd = ?P @ p @ ?S" by (simp add: generateCommand_def)
  moreover from assms(2,4) have "cmd = ?P @ q @ ?S" by (simp add: generateCommand_def)
  ultimately have "?P @ p @ ?S = ?P @ q @ ?S" by (rule trans [OF sym])
  then show ?thesis by (simp only: same_append_eq append_same_eq)
qed

lemma first_named:
  assumes "generateCommand fm (packageName st) (FunctionName args) (Remote args)
             (KeyName args) (PkgDir args) (ChainID args) w = Inr (cmd, w)"
  shows "\<exists>w'. executeTask_first args pw fm (st, w)
            = Inr (clock w + int (elapse w (tick w)), st, w')
      \<and> execs w' = execs w @ [\<lparr>ex_argv = [''bash'', ''-c'', cmd],
         ex_stdin = (if pw \<noteq> [] then pw @ [CHR 0x0A] else [CHR 0x0A]),
         ex_begin = clock w + int (elapse w (tick w)),
         ex_end = clock w + int (elapse w (tick w)) + int (elapse w (tick w + 1))\<rparr>]
      \<and> clock w' = clock w + int (elapse w (tick w)) + int (elapse w (tick w + 1))
      \<and> tick w' = tick w + 2 \<and> elapse w' = elapse w \<and> logs w' = logs w
      \<and> rand_no w' = rand_no w \<and> rand_src w' = rand_src w"
  using assms
  by (cases "firstLoop st")
     (simp_all add: Let_def time_Now_def split_beta executeCommand_fields split: option.splits)

lemma second_named:
  assumes "Mode args = ''addpkg+call''"
    and "generateCommand ''call'' (packageName st) (FunctionName args) (Remote args)
             (KeyName args) (PkgDir args) (ChainID args) w = Inr (cmd, w)"
  shows "\<exists>w'. executeTask_second args pw (st, w) = Inr (st\<lparr>packageName := []\<rparr>, w')
      \<and> execs w' = execs w @ [\<lparr>ex_argv = [''bash'', ''-c'', cmd],
         ex_stdin = (if pw \<noteq> [] then pw @ [CHR 0x0A] else [CHR 0x0A]),
         ex_begin = clock w, ex_end = clock w + int (elapse w (tick w))\<rparr>]
      \<and> clock w' = clock w + int (elapse w (tick w))
      \<and> tick w' = tick w + 1 \<and> elapse w' = elapse w \<and> logs w' = logs w
      \<and> rand_no w' = rand_no w \<and> rand_src w' = rand_src w"
  using assms
  by (cases "firstLoop st")
     (simp_all add: Let_def split_beta executeCommand_fields)

lemma record_fields:
  "\<exists>w'. executeTask_record start (st, w) = (st\<lparr>firstLoop := False\<rparr>, w')
      \<and> execs w' = execs w
      \<and> logs w' = logs w @
          [\<lparr>Timestamp = clock w + int (elapse w (tick w)) + int (elapse w (tick w + 1)),
            ResponseTime = clock w + int (elapse w (tick w)) - start\<rparr>]
      \<and> clock w' = clock w + int (elapse w (tick w)) + int (elapse w (tick w + 1))
      \<and> tick w' = tick w + 2 \<and> elapse w' = elapse w \<and> rand_no w' = rand_no w
      \<and> rand_src w' = rand_src w"
  by (simp add: Let_def time_Now_def time_Since_def split_beta)


lemma work_composite:
  assumes mode: "Mode args = ''addpkg+call''"
  shows "\<exists>p cmd1 cmd2 w'.
    p \<noteq> []
    \<and> (packageName st \<noteq> [] \<longrightarrow> p = packageName st)
    \<and> (packageName st = [] \<longrightarrow>
          randomString MaxPackageLength w = Inr (p, w\<lparr>rand_no := rand_no w + 20\<rparr>))
    \<and> (\<forall>v. generateCommand ''addpkg'' p (FunctionName args) (Remote args)
             (KeyName args) (PkgDir args) (ChainID args) v = Inr (cmd1, v))
    \<and> (\<forall>v. generateCommand ''call'' p (FunctionName args) (Remote args)
             (KeyName args) (PkgDir args) (ChainID args) v = Inr (cmd2, v))
    \<and> executeTask_work args pw (st, w) = Inr (st\<lparr>packageName := [], firstLoop := False\<rparr>, w')
    \<and> execs w' = execs w @
       [\<lparr>ex_argv = [''bash'', ''-c'', cmd1],
         ex_stdin = (if pw \<noteq> [] then pw @ [CHR 0x0A] else [CHR 0x0A]),
         ex_begin = clock w + int (elapse w (tick w)),
         ex_end = clock w + int (elapse w (tick w)) + int (elapse w (tick w + 1))\<rparr>,
        \<lparr>ex_argv = [''bash'', ''-c'', cmd2],
         ex_stdin = (if pw \<noteq> [] then pw @ [CHR 0x0A] else [CHR 0x0A]),
         ex_begin = clock w + int (elapse w (tick w)) + int (elapse w (tick w + 1)),
         ex_end = clock w + int (elapse w (tick w)) + int (elapse w (tick w + 1))
                  + int (elapse w (tick w + 2))\<rparr>]
    \<and> logs w' = logs w @
       [\<lparr>Timestamp = clock w + int (elapse w (tick w)) + int (elapse w (tick w + 1))
                  + int (elapse w (tick w + 2)) + int (elapse w (tick w + 3))
                  + int (elapse w (tick w + 4)),
         ResponseTime = int (elapse w (tick w + 1)) + int (elapse w (tick w + 2))
                  + int (elapse w (tick w + 3))\<rparr>]
    \<and> rand_no w' = rand_no w + (if packageName st = [] then 20 else 0)
    \<and> rand_src w' = rand_src w \<and> elapse w' = elapse w \<and> tick w' = tick w + 5
    \<and> clock w' = clock w + int (elapse w (tick w)) + int (elapse w (tick w + 1))
                  + int (elapse w (tick w + 2)) + int (elapse w (tick w + 3))
                  + int (elapse w (tick w + 4))"
proof -
  obtain s where s: "randomString MaxPackageLength w = Inr (s, w\<lparr>rand_no := rand_no w + 20\<rparr>)"
    "s \<noteq> []"
    using randomString_MaxPackageLength [of w] by blast
  define p where "p = (if packageName st = [] then s else packageName st)"
  define w1 where "w1 = (if packageName st = [] then w\<lparr>rand_no := rand_no w + 20\<rparr> else w)"
  define st1 where "st1 = (if packageName st = [] then st\<lparr>packageName := s\<rparr> else st)"
  have pne: "p \<noteq> []" using s by (simp add: p_def)
  have st1: "packageName st1 = p" "st1\<lparr>packageName := []\<rparr> = st\<lparr>packageName := []\<rparr>"
    by (simp_all add: st1_def p_def)
  have w1: "clock w1 = clock w" "tick w1 = tick w" "elapse w1 = elapse w" "execs w1 = execs w"
    "logs w1 = logs w" "rand_no w1 = rand_no w + (if packageName st = [] then 20 else 0)"
    "rand_src w1 = rand_src w"
    by (simp_all add: w1_def)
  obtain cmd1 where c1: "\<forall>v. generateCommand ''addpkg'' p (FunctionName args) (Remote args)
             (KeyName args) (PkgDir args) (ChainID args) v = Inr (cmd1, v)"
    using generateCommand_addpkg [OF pne] by blast
  obtain cmd2 where c2: "\<forall>v. generateCommand ''call'' p (FunctionName args) (Remote args)
             (KeyName args) (PkgDir args) (ChainID args) v = Inr (cmd2, v)"
    using generateCommand_call [OF pne] by blast
  have fm: "executeTask_firstMode (Mode args) (st, w) = Inr (''addpkg'', st1, w1)"
    using mode s by (simp add: st1_def w1_def)
  from c1 st1(1) have "generateCommand ''addpkg'' (packageName st1) (FunctionName args) (Remote args)
             (KeyName args) (PkgDir args) (ChainID args) w1 = Inr (cmd1, w1)" by simp
  from first_named [OF this, of pw] obtain w2 where
    f1: "executeTask_first args pw ''addpkg'' (st1, w1)
            = Inr (clock w1 + int (elapse w1 (tick w1)), st1, w2)"
    and w2: "execs w2 = execs w1 @ [\<lparr>ex_argv = [''bash'', ''-c'', cmd1],
         ex_stdin = (if pw \<noteq> [] then pw @ [CHR 0x0A] else [CHR 0x0A]),
         ex_begin = clock w1 + int (elapse w1 (tick w1)),
         ex_end = clock w1 + int (elapse w1 (tick w1)) + int (elapse w1 (tick w1 + 1))\<rparr>]"
      "clock w2 = clock w1 + int (elapse w1 (tick w1)) + int (elapse w1 (tick w1 + 1))"
      "tick w2 = tick w1 + 2" "elapse w2 = elapse w1" "logs w2 = logs w1" "rand_no w2 = rand_no w1"
      "rand_src w2 = rand_src w1"
    by blast
  from c2 st1(1) have "generateCommand ''call'' (packageName st1) (FunctionName args) (Remote args)
             (KeyName args) (PkgDir args) (ChainID args) w2 = Inr (cmd2, w2)" by simp
  from second_named [OF mode this, of pw] obtain w3 where
    f2: "executeTask_second args pw (st1, w2) = Inr (st1\<lparr>packageName := []\<rparr>, w3)"
    and w3: "execs w3 = execs w2 @ [\<lparr>ex_argv = [''bash'', ''-c'', cmd2],
         ex_stdin = (if pw \<noteq> [] then pw @ [CHR 0x0A] else [CHR 0x0A]),
         ex_begin = clock w2, ex_end = clock w2 + int (elapse w2 (tick w2))\<rparr>]"
      "clock w3 = clock w2 + int (elapse w2 (tick w2))"
      "tick w3 = tick w2 + 1" "elapse w3 = elapse w2" "logs w3 = logs w2" "rand_no w3 = rand_no w2"
      "rand_src w3 = rand_src w2"
    by blast
  from record_fields [of "clock w1 + int (elapse w1 (tick w1))" "st1\<lparr>packageName := []\<rparr>" w3]
  obtain w4 where
    f3: "executeTask_record (clock w1 + int (elapse w1 (tick w1))) (st1\<lparr>packageName := []\<rparr>, w3)
           = (st1\<lparr>packageName := [], firstLoop := False\<rparr>, w4)"
    and w4: "execs w4 = execs w3"
      "logs w4 = logs w3 @
          [\<lparr>Timestamp = clock w3 + int (elapse w3 (tick w3)) + int (elapse w3 (tick w3 + 1)),
            ResponseTime = clock w3 + int (elapse w3 (tick w3)) - (clock w1 + int (elapse w1 (tick w1)))\<rparr>]"
      "rand_no w4 = rand_no w3" "rand_src w4 = rand_src w3" "elapse w4 = elapse w3"
      "tick w4 = tick w3 + 2"
      "clock w4 = clock w3 + int (elapse w3 (tick w3)) + int (elapse w3 (tick w3 + 1))"
    by blast
  have res: "executeTask_work args pw (st, w) = Inr (st\<lparr>packageName := [], firstLoop := False\<rparr>, w4)"
    using fm f1 f2 f3 st1(2) by (simp add: executeTask_work_def)
  have ex: "execs w4 = execs w @
       [\<lparr>ex_argv = [''bash'', ''-c'', cmd1],
         ex_stdin = (if pw \<noteq> [] then pw @ [CHR 0x0A] else [CHR 0x0A]),
         ex_begin = clock w + int (elapse w (tick w)),
         ex_end = clock w + int (elapse w (tick w)) + int (elapse w (tick w + 1))\<rparr>,
        \<lparr>ex_argv = [''bash'', ''-c'', cmd2],
         ex_stdin = (if pw \<noteq> [] then pw @ [CHR 0x0A] else [CHR 0x0A]),
         ex_begin = clock w + int (elapse w (tick w)) + int (elapse w (tick w + 1)),
         ex_end = clock w + int (elapse w (tick w)) + int (elapse w (tick w + 1))
                  + int (elapse w (tick w + 2))\<rparr>]"
    by (simp add: w4 w3 w2 w1)
  have lg: "logs w4 = logs w @
       [\<lparr>Timestamp = clock w + int (elapse w (tick w)) + int (elapse w (tick w + 1))
                  + int (elapse w (tick w + 2)) + int (elapse w (tick w + 3))
                  + int (elapse w (tick w + 4)),
         ResponseTime = int (elapse w (tick w + 1)) + int (elapse w (tick w + 2))
                  + int (elapse w (tick w + 3))\<rparr>]"
    by (simp add: w4 w3 w2 w1 numeral_3_eq_3 eval_nat_numeral)
  have rn: "rand_no w4 = rand_no w + (if packageName st = [] then 20 else 0)"
    by (simp add: w4 w3 w2 w1)
  have a: "packageName st \<noteq> [] \<longrightarrow> p = packageName st" by (simp add: p_def)
  have b: "packageName st = [] \<longrightarrow>
          randomString MaxPackageLength w = Inr (p, w\<lparr>rand_no := rand_no w + 20\<rparr>)"
    using s by (simp add: p_def)
  have rest: "rand_src w4 = rand_src w" "elapse w4 = elapse w" "tick w4 = tick w + 5"
    "clock w4 = clock w + int (elapse w (tick w)) + int (elapse w (tick w + 1))
                  + int (elapse w (tick w + 2)) + int (elapse w (tick w + 3))
                  + int (elapse w (tick w + 4))"
    by (simp_all add: w4 w3 w2 w1 numeral_3_eq_3 eval_nat_numeral)
  from pne a b c1 c2 res ex lg rn rest show ?thesis by blast
qed

lemma randomString_world0:
  "(case randomString 20 world0 of Inl e \<Rightarrow> [] | Inr (s, w) \<Rightarrow> s) = ''abcdefghijklmnopqrst''"
  by code_simp

text \<open>
  C3. In the mode \<open>addpkg+call\<close> every cycle runs exactly two commands, the \<open>addpkg\<close> command
  and then the \<open>call\<close> command that \<open>generateCommand\<close> makes for one and the same non-empty
  package name \<open>p\<close>. When the worker's \<open>packageName\<close> is not empty, \<open>p\<close> is that name and no
  random value is drawn; when it is empty, \<open>p\<close> is the result of the one call of
  \<open>randomString(MaxPackageLength)\<close> of the cycle: twenty random values are drawn, none for
  the second command.
\<close>

theorem composite_cycle_one_name:
  assumes "Mode args = ''addpkg+call''"
  shows "\<exists>p cmd1 cmd2 e1 e2 st' w'.
      executeTask_work args password (st, w) = Inr (st', w')
    \<and> execs w' = execs w @ [e1, e2]
    \<and> ex_argv e1 = [''bash'', ''-c'', cmd1] \<and> ex_argv e2 = [''bash'', ''-c'', cmd2]
    \<and> p \<noteq> []
    \<and> (\<forall>v. generateCommand ''addpkg'' p (FunctionName args) (Remote args) (KeyName args)
               (PkgDir args) (ChainID args) v = Inr (cmd1, v))
    \<and> (\<forall>v. generateCommand ''call'' p (FunctionName args) (Remote args) (KeyName args)
               (PkgDir args) (ChainID args) v = Inr (cmd2, v))
    \<and> (packageName st \<noteq> [] \<longrightarrow> p = packageName st \<and> rand_no w' = rand_no w)
    \<and> (packageName st = [] \<longrightarrow>
          randomString MaxPackageLength w = Inr (p, w\<lparr>rand_no := rand_no w + 20\<rparr>)
          \<and> rand_no w' = rand_no w + 20)"
proof -
  from work_composite [OF assms, of st w password]
  obtain p cmd1 cmd2 w' e1 e2 where
    "p \<noteq> []"
    "packageName st \<noteq> [] \<longrightarrow> p = packageName st"
    "packageName st = [] \<longrightarrow>
          randomString MaxPackageLength w = Inr (p, w\<lparr>rand_no := rand_no w + 20\<rparr>)"
    "\<forall>v. generateCommand ''addpkg'' p (FunctionName args) (Remote args)
             (KeyName args) (PkgDir args) (ChainID args) v = Inr (cmd1, v)"
    "\<forall>v. generateCommand ''call'' p (FunctionName args) (Remote args)
             (KeyName args) (PkgDir args) (ChainID args) v = Inr (cmd2, v)"
    "executeTask_work args password (st, w) = Inr (st\<lparr>packageName := [], firstLoop := False\<rparr>, w')"
    "execs w' = execs w @ [e1, e2]"
    "ex_argv e1 = [''bash'', ''-c'', cmd1]" "ex_argv e2 = [''bash'', ''-c'', cmd2]"
    "rand_no w' = rand_no w + (if packageName st = [] then 20 else 0)"
    by (metis (no_types, lifting) exec_record.select_convs(1))
  then show ?thesis by (intro exI [of _ p] exI [of _ cmd1] exI [of _ cmd2] exI [of _ e1]
        exI [of _ e2] exI [of _ "st\<lparr>packageName := [], firstLoop := False\<rparr>"] exI [of _ w']) simp
qed


theorem composite_cycle_one_name_witness:
  "Mode args_composite = ''addpkg+call'' \<and> packageName state0 = []
   \<and> (\<exists>cmd1 cmd2 e1 e2 st' w'.
        executeTask_work args_composite ''pw'' (state0, world0) = Inr (st', w')
      \<and> execs w' = [e1, e2]
      \<and> ex_argv e1 = [''bash'', ''-c'', cmd1] \<and> ex_argv e2 = [''bash'', ''-c'', cmd2]
      \<and> (\<forall>v. generateCommand ''addpkg'' ''abcdefghijklmnopqrst'' [] ''localhost:26657'' ''Dev''
               ''.'' ''dev'' v = Inr (cmd1, v))
      \<and> (\<forall>v. generateCommand ''call'' ''abcdefghijklmnopqrst'' [] ''localhost:26657'' ''Dev''
               ''.'' ''dev'' v = Inr (cmd2, v))
      \<and> rand_no w' = 20)"
proof -
  have m: "Mode args_composite = ''addpkg+call''"
    by (simp add: args_composite_def args_pinned_def)
  have n: "packageName state0 = []" by (simp add: state0_def)
  from composite_cycle_one_name [OF m, of "''pw''" state0 world0] n
  obtain p cmd1 cmd2 e1 e2 st' w' where
    w: "executeTask_work args_composite ''pw'' (state0, world0) = Inr (st', w')"
      "execs w' = execs world0 @ [e1, e2]"
      "ex_argv e1 = [''bash'', ''-c'', cmd1]" "ex_argv e2 = [''bash'', ''-c'', cmd2]"
      "\<forall>v. generateCommand ''addpkg'' p (FunctionName args_composite) (Remote args_composite)
             (KeyName args_composite) (PkgDir args_composite) (ChainID args_composite) v = Inr (cmd1, v)"
      "\<forall>v. generateCommand ''call'' p (FunctionName args_composite) (Remote args_composite)
             (KeyName args_composite) (PkgDir args_composite) (ChainID args_composite) v = Inr (cmd2, v)"
      "randomString MaxPackageLength world0 = Inr (p, world0\<lparr>rand_no := rand_no world0 + 20\<rparr>)"
      "rand_no w' = rand_no world0 + 20"
    by auto
  from w(7) randomString_world0 have p: "p = ''abcdefghijklmnopqrst''"
    by (simp add: MaxPackageLength_def)
  from w p have "executeTask_work args_composite ''pw'' (state0, world0) = Inr (st', w')
      \<and> execs w' = [e1, e2]
      \<and> ex_argv e1 = [''bash'', ''-c'', cmd1] \<and> ex_argv e2 = [''bash'', ''-c'', cmd2]
      \<and> (\<forall>v. generateCommand ''addpkg'' ''abcdefghijklmnopqrst'' [] ''localhost:26657'' ''Dev''
               ''.'' ''dev'' v = Inr (cmd1, v))
      \<and> (\<forall>v. generateCommand ''call'' ''abcdefghijklmnopqrst'' [] ''localhost:26657'' ''Dev''
               ''.'' ''dev'' v = Inr (cmd2, v))
      \<and> rand_no w' = 20"
    by (simp add: args_composite_def args_pinned_def world0_def)
  with m n show ?thesis by blast
qed

text \<open>
  C10. In the mode \<open>addpkg+call\<close> a cycle appends exactly one sample to the log, after having
  run the \<open>addpkg\<close> and the \<open>call\<close> command. The sample's response time runs from the
  reading of \<open>start\<close>, the instant the \<open>addpkg\<close> process begins, to the first reading of the
  clock after the \<open>call\<close> process has ended, so it covers both commands; the sample's
  timestamp is the reading of the clock after that.
\<close>

theorem composite_cycle_one_sample:
  assumes "Mode args = ''addpkg+call''"
  shows "\<exists>p cmd1 cmd2 e1 e2 L st' w'.
      executeTask_work args password (st, w) = Inr (st', w')
    \<and> execs w' = execs w @ [e1, e2]
    \<and> ex_argv e1 = [''bash'', ''-c'', cmd1] \<and> ex_argv e2 = [''bash'', ''-c'', cmd2]
    \<and> (\<forall>v. generateCommand ''addpkg'' p (FunctionName args) (Remote args) (KeyName args)
               (PkgDir args) (ChainID args) v = Inr (cmd1, v))
    \<and> (\<forall>v. generateCommand ''call'' p (FunctionName args) (Remote args) (KeyName args)
               (PkgDir args) (ChainID args) v = Inr (cmd2, v))
    \<and> logs w' = logs w @ [L]
    \<and> ex_begin e1 = clock w + int (elapse w (tick w))
    \<and> ex_end e1 = ex_begin e1 + int (elapse w (tick w + 1))
    \<and> ex_begin e2 = ex_end e1
    \<and> ex_end e2 = ex_begin e2 + int (elapse w (tick w + 2))
    \<and> ResponseTime L = ex_end e2 + int (elapse w (tick w + 3)) - ex_begin e1
    \<and> Timestamp L = ex_end e2 + int (elapse w (tick w + 3)) + int (elapse w (tick w + 4))
    \<and> ex_end e2 - ex_begin e1 \<le> ResponseTime L"
proof -
  let ?e1 = "\<lparr>ex_argv = [''bash'', ''-c'', cmd1],
         ex_stdin = (if password \<noteq> [] then password @ [CHR 0x0A] else [CHR 0x0A]),
         ex_begin = clock w + int (elapse w (tick w)),
         ex_end = clock w + int (elapse w (tick w)) + int (elapse w (tick w + 1))\<rparr>"
  from work_composite [OF assms, of st w password]
  obtain p cmd1 cmd2 w' where
    c: "\<forall>v. generateCommand ''addpkg'' p (FunctionName args) (Remote args)
             (KeyName args) (PkgDir args) (ChainID args) v = Inr (cmd1, v)"
    "\<forall>v. generateCommand ''call'' p (FunctionName args) (Remote args)
             (KeyName args) (PkgDir args) (ChainID args) v = Inr (cmd2, v)"
    and r: "executeTask_work args password (st, w) = Inr (st\<lparr>packageName := [], firstLoop := False\<rparr>, w')"
    and e: "execs w' = execs w @
       [\<lparr>ex_argv = [''bash'', ''-c'', cmd1],
         ex_stdin = (if password \<noteq> [] then password @ [CHR 0x0A] else [CHR 0x0A]),
         ex_begin = clock w + int (elapse w (tick w)),
         ex_end = clock w + int (elapse w (tick w)) + int (elapse w (tick w + 1))\<rparr>,
        \<lparr>ex_argv = [''bash'', ''-c'', cmd2],
         ex_stdin = (if password \<noteq> [] then password @ [CHR 0x0A] else [CHR 0x0A]),
         ex_begin = clock w + int (elapse w (tick w)) + int (elapse w (tick w + 1)),
         ex_end = clock w + int (elapse w (tick w)) + int (elapse w (tick w + 1))
                  + int (elapse w (tick w + 2))\<rparr>]"
    and l: "logs w' = logs w @
       [\<lparr>Timestamp = clock w + int (elapse w (tick w)) + int (elapse w (tick w + 1))
                  + int (elapse w (tick w + 2)) + int (elapse w (tick w + 3))
                  + int (elapse w (tick w + 4)),
         ResponseTime = int (elapse w (tick w + 1)) + int (elapse w (tick w + 2))
                  + int (elapse w (tick w + 3))\<rparr>]"
    by blast
  show ?thesis
    apply (rule exI [of _ p], rule exI [of _ cmd1], rule exI [of _ cmd2])
    apply (rule exI [of _ "\<lparr>ex_argv = [''bash'', ''-c'', cmd1],
         ex_stdin = (if password \<noteq> [] then password @ [CHR 0x0A] else [CHR 0x0A]),
         ex_begin = clock w + int (elapse w (tick w)),
         ex_end = clock w + int (elapse w (tick w)) + int (elapse w (tick w + 1))\<rparr>"])
    apply (rule exI [of _ "\<lparr>ex_argv = [''bash'', ''-c'', cmd2],
         ex_stdin = (if password \<noteq> [] then password @ [CHR 0x0A] else [CHR 0x0A]),
         ex_begin = clock w + int (elapse w (tick w)) + int (elapse w (tick w + 1)),
         ex_end = clock w + int (elapse w (tick w)) + int (elapse w (tick w + 1))
                  + int (elapse w (tick w + 2))\<rparr>"])
    apply (rule exI [of _ "\<lparr>Timestamp = clock w + int (elapse w (tick w)) + int (elapse w (tick w + 1))
                  + int (elapse w (tick w + 2)) + int (elapse w (tick w + 3))
                  + int (elapse w (tick w + 4)),
         ResponseTime = int (elapse w (tick w + 1)) + int (elapse w (tick w + 2))
                  + int (elapse w (tick w + 3))\<rparr>"])
    apply (rule exI [of _ "st\<lparr>packageName := [], firstLoop := False\<rparr>"], rule exI [of _ w'])
    using c r e l apply simp
    done
qed

theorem composite_cycle_one_sample_witness:
  "Mode args_composite = ''addpkg+call''
   \<and> (\<exists>e1 e2 L st' w'.
        executeTask_work args_composite ''pw'' (state0, world_ticking) = Inr (st', w')
      \<and> execs w' = [e1, e2] \<and> logs w' = [L]
      \<and> ex_begin e1 = 1 \<and> ex_end e1 = 3 \<and> ex_begin e2 = 3 \<and> ex_end e2 = 6
      \<and> ResponseTime L = 9 \<and> Timestamp L = 15)"
proof -
  have m: "Mode args_composite = ''addpkg+call''"
    by (simp add: args_composite_def args_pinned_def)
  have w: "clock world_ticking = 0" "tick world_ticking = 0" "elapse world_ticking = (\<lambda>k. k + 1)"
    "execs world_ticking = []" "logs world_ticking = []"
    by (simp_all add: world_ticking_def world0_def)
  from composite_cycle_one_sample [OF m, of "''pw''" state0 world_ticking]
  obtain e1 e2 L st' w' where
    "executeTask_work args_composite ''pw'' (state0, world_ticking) = Inr (st', w')"
    "execs w' = [e1, e2]" "logs w' = [L]"
    "ex_begin e1 = 1" "ex_end e1 = ex_begin e1 + 2" "ex_begin e2 = ex_end e1"
    "ex_end e2 = ex_begin e2 + 3"
    "ResponseTime L = ex_end e2 + 4 - ex_begin e1"
    "Timestamp L = ex_end e2 + 4 + 5"
    unfolding w by auto
  then have "executeTask_work args_composite ''pw'' (state0, world_ticking) = Inr (st', w')
      \<and> execs w' = [e1, e2] \<and> logs w' = [L]
      \<and> ex_begin e1 = 1 \<and> ex_end e1 = 3 \<and> ex_begin e2 = 3 \<and> ex_end e2 = 6
      \<and> ResponseTime L = 9 \<and> Timestamp L = 15"
    by simp
  with m show ?thesis by blast
qed

section \<open>From one cycle to the next\<close>

lemma throttle_frame:
  assumes "executeTask_throttle q (st, w) = (adm, st1, w1)"
  shows "packageName st1 = packageName st \<and> firstLoop st1 = firstLoop st
       \<and> execs w1 = execs w \<and> logs w1 = logs w \<and> rand_no w1 = rand_no w
       \<and> rand_src w1 = rand_src w \<and> elapse w1 = elapse w"
  using assms
  by (auto simp: executeTask_throttle_def Let_def time_Since_def time_Now_def time_Until_def
        time_Sleep_def split_beta split: if_splits)

lemma throttle_admit:
  assumes "fst (time_Since (lastQueryTime st) w) < Second" "queryCount st < q"
  shows "executeTask_throttle q (st, w)
           = (True, st\<lparr>queryCount := queryCount st + 1\<rparr>, snd (time_Since (lastQueryTime st) w))"
  using assms by (simp add: executeTask_throttle_def split_beta)

lemma randomString_loop_cong:
  "rand_src w = rand_src v \<Longrightarrow> rand_no w = rand_no v
     \<Longrightarrow> fst (randomString_loop is b w) = fst (randomString_loop is b v)"
proof (induction "is" arbitrary: b w v)
  case Nil
  then show ?case by simp
next
  case (Cons i "is")
  have "fst (randomString_loop is (b[i := charset ! (rand_src v (rand_no v) mod length charset)])
              (w\<lparr>rand_no := rand_no w + 1\<rparr>))
      = fst (randomString_loop is (b[i := charset ! (rand_src v (rand_no v) mod length charset)])
              (v\<lparr>rand_no := rand_no v + 1\<rparr>))"
    by (rule Cons.IH) (simp_all add: Cons.prems)
  then show ?case using Cons.prems by (simp add: rand_Intn_def)
qed

lemma randomString_cong:
  assumes "rand_src w = rand_src v" "rand_no w = rand_no v"
    and "randomString n w = Inr (s, w')"
  shows "randomString n v = Inr (s, v\<lparr>rand_no := rand_no v + nat n\<rparr>)"
proof -
  from assms(3) have n: "\<not> n < 0" by (auto simp: randomString_def split: if_splits)
  let ?b = "replicate (nat n) (CHR 0x00)"
  from assms(3) n have "s = fst (randomString_loop [0..<length ?b] ?b w)"
    by (auto simp: randomString_def Let_def)
  also have "\<dots> = fst (randomString_loop [0..<length ?b] ?b v)"
    by (rule randomString_loop_cong) (fact assms(1), fact assms(2))
  finally have "randomString n v = Inr (s, snd (randomString_loop [0..<length ?b] ?b v))"
    using n by (simp add: randomString_def Let_def)
  then show ?thesis by (simp add: randomString_loop_world)
qed

lemma body_composite:
  assumes mode: "Mode args = ''addpkg+call''"
    and thr: "executeTask_throttle (MaxQPS args) (st, w) = (True, st1, w1)"
  shows "\<exists>p cmd1 cmd2 w'.
    p \<noteq> []
    \<and> (packageName st \<noteq> [] \<longrightarrow> p = packageName st)
    \<and> (packageName st = [] \<longrightarrow>
          randomString MaxPackageLength w = Inr (p, w\<lparr>rand_no := rand_no w + 20\<rparr>))
    \<and> (\<forall>v. generateCommand ''addpkg'' p (FunctionName args) (Remote args)
             (KeyName args) (PkgDir args) (ChainID args) v = Inr (cmd1, v))
    \<and> (\<forall>v. generateCommand ''call'' p (FunctionName args) (Remote args)
             (KeyName args) (PkgDir args) (ChainID args) v = Inr (cmd2, v))
    \<and> executeTask_body args pw (st, w) = Inr (st1\<lparr>packageName := [], firstLoop := False\<rparr>, w')
    \<and> map ex_argv (execs w') = map ex_argv (execs w) @ [[''bash'', ''-c'', cmd1], [''bash'', ''-c'', cmd2]]
    \<and> length (logs w') = length (logs w) + 1
    \<and> rand_no w' = rand_no w + (if packageName st = [] then 20 else 0)
    \<and> rand_src w' = rand_src w \<and> elapse w' = elapse w
    \<and> clock w' = clock w1 + int (elapse w1 (tick w1)) + int (elapse w1 (tick w1 + 1))
                  + int (elapse w1 (tick w1 + 2)) + int (elapse w1 (tick w1 + 3))
                  + int (elapse w1 (tick w1 + 4))"
proof -
  note f = throttle_frame [OF thr]
  from work_composite [OF mode, of st1 w1 pw]
  obtain p cmd1 cmd2 w' where
    p: "p \<noteq> []" "packageName st1 \<noteq> [] \<longrightarrow> p = packageName st1"
      "packageName st1 = [] \<longrightarrow>
          randomString MaxPackageLength w1 = Inr (p, w1\<lparr>rand_no := rand_no w1 + 20\<rparr>)"
    and c: "\<forall>v. generateCommand ''addpkg'' p (FunctionName args) (Remote args)
             (KeyName args) (PkgDir args) (ChainID args) v = Inr (cmd1, v)"
      "\<forall>v. generateCommand ''call'' p (FunctionName args) (Remote args)
             (KeyName args) (PkgDir args) (ChainID args) v = Inr (cmd2, v)"
    and r: "executeTask_work args pw (st1, w1) = Inr (st1\<lparr>packageName := [], firstLoop := False\<rparr>, w')"
    and e: "execs w' = execs w1 @
       [\<lparr>ex_argv = [''bash'', ''-c'', cmd1],
         ex_stdin = (if pw \<noteq> [] then pw @ [CHR 0x0A] else [CHR 0x0A]),
         ex_begin = clock w1 + int (elapse w1 (tick w1)),
         ex_end = clock w1 + int (elapse w1 (tick w1)) + int (elapse w1 (tick w1 + 1))\<rparr>,
        \<lparr>ex_argv = [''bash'', ''-c'', cmd2],
         ex_stdin = (if pw \<noteq> [] then pw @ [CHR 0x0A] else [CHR 0x0A]),
         ex_begin = clock w1 + int (elapse w1 (tick w1)) + int (elapse w1 (tick w1 + 1)),
         ex_end = clock w1 + int (elapse w1 (tick w1)) + int (elapse w1 (tick w1 + 1))
                  + int (elapse w1 (tick w1 + 2))\<rparr>]"
    and l: "logs w' = logs w1 @
       [\<lparr>Timestamp = clock w1 + int (elapse w1 (tick w1)) + int (elapse w1 (tick w1 + 1))
                  + int (elapse w1 (tick w1 + 2)) + int (elapse w1 (tick w1 + 3))
                  + int (elapse w1 (tick w1 + 4)),
         ResponseTime = int (elapse w1 (tick w1 + 1)) + int (elapse w1 (tick w1 + 2))
                  + int (elapse w1 (tick w1 + 3))\<rparr>]"
    and z: "rand_no w' = rand_no w1 + (if packageName st1 = [] then 20 else 0)"
      "rand_src w' = rand_src w1" "elapse w' = elapse w1"
      "clock w' = clock w1 + int (elapse w1 (tick w1)) + int (elapse w1 (tick w1 + 1))
                  + int (elapse w1 (tick w1 + 2)) + int (elapse w1 (tick w1 + 3))
                  + int (elapse w1 (tick w1 + 4))"
    by blast
  have b: "executeTask_body args pw (st, w) = Inr (st1\<lparr>packageName := [], firstLoop := False\<rparr>, w')"
    using thr r by (simp add: executeTask_body_def)
  have rs: "packageName st = [] \<longrightarrow>
          randomString MaxPackageLength w = Inr (p, w\<lparr>rand_no := rand_no w + 20\<rparr>)"
  proof
    assume "packageName st = []"
    with p(3) f have "randomString MaxPackageLength w1 = Inr (p, w1\<lparr>rand_no := rand_no w1 + 20\<rparr>)"
      by simp
    from randomString_cong [OF _ _ this, of w] f show
      "randomString MaxPackageLength w = Inr (p, w\<lparr>rand_no := rand_no w + 20\<rparr>)"
      by (simp add: MaxPackageLength_def)
  qed
  have ex: "map ex_argv (execs w') = map ex_argv (execs w) @ [[''bash'', ''-c'', cmd1], [''bash'', ''-c'', cmd2]]"
    using e f by simp
  have lg: "length (logs w') = length (logs w) + 1" using l f by simp
  from p(1,2) rs c b ex lg z f show ?thesis by (intro exI [of _ p] exI [of _ cmd1] exI [of _ cmd2] exI [of _ w']) simp
qed

lemma body_deferred:
  assumes "executeTask_throttle (MaxQPS args) (st, w) = (False, st1, w1)"
  shows "executeTask_body args pw (st, w) = Inr (st1, w1)"
  using assms by (simp add: executeTask_body_def)

lemma loop_packageName:
  assumes mode: "Mode args = ''addpkg+call''"
  shows "executeTask_loop n args pw (st0, w0) = Inr (st, w)
    \<Longrightarrow> packageName st = [] \<or> (packageName st = packageName st0 \<and> logs w = logs w0)"
proof (induction n arbitrary: st0 w0)
  case 0
  then show ?case by simp
next
  case (Suc n)
  obtain adm st1 w1 where thr: "executeTask_throttle (MaxQPS args) (st0, w0) = (adm, st1, w1)"
    by (cases "executeTask_throttle (MaxQPS args) (st0, w0)")
  show ?case
  proof (cases adm)
    case True
    with thr have thr': "executeTask_throttle (MaxQPS args) (st0, w0) = (True, st1, w1)" by simp
    from body_composite [OF mode thr', of pw] obtain w' where
      b: "executeTask_body args pw (st0, w0) = Inr (st1\<lparr>packageName := [], firstLoop := False\<rparr>, w')"
      by blast
    with Suc.prems have "executeTask_loop n args pw (st1\<lparr>packageName := [], firstLoop := False\<rparr>, w') = Inr (st, w)"
      by simp
    from Suc.IH [OF this] show ?thesis by auto
  next
    case False
    with thr have thr': "executeTask_throttle (MaxQPS args) (st0, w0) = (False, st1, w1)" by simp
    from body_deferred [OF thr', of pw] Suc.prems
    have "executeTask_loop n args pw (st1, w1) = Inr (st, w)" by simp
    from Suc.IH [OF this] throttle_frame [OF thr] show ?thesis by auto
  qed
qed

lemma command_for_eq:
  "\<forall>v. generateCommand m p (FunctionName args) (Remote args) (KeyName args) (PkgDir args)
         (ChainID args) v = Inr (cmd, v) \<Longrightarrow> cmd = command_for m p args"
  by (simp add: command_for_def)

lemma time_Since_frozen:
  assumes "elapse w = (\<lambda>k. 0)"
  shows "fst (time_Since t w) = clock w - t" "clock (snd (time_Since t w)) = clock w"
    "elapse (snd (time_Since t w)) = elapse w"
  using assms by (simp_all add: time_Since_def time_Now_def Let_def)

lemma body_composite_frozen:
  assumes mode: "Mode args = ''addpkg+call''"
    and fr: "elapse w = (\<lambda>k. 0)"
    and win: "clock w - lastQueryTime st < Second"
    and cnt: "queryCount st < MaxQPS args"
  shows "\<exists>p w'.
    p \<noteq> []
    \<and> (packageName st \<noteq> [] \<longrightarrow> p = packageName st)
    \<and> (packageName st = [] \<longrightarrow>
          randomString MaxPackageLength w = Inr (p, w\<lparr>rand_no := rand_no w + 20\<rparr>))
    \<and> executeTask_body args pw (st, w)
        = Inr (st\<lparr>queryCount := queryCount st + 1, packageName := [], firstLoop := False\<rparr>, w')
    \<and> map ex_argv (execs w') = map ex_argv (execs w) @
         [[''bash'', ''-c'', command_for ''addpkg'' p args],
          [''bash'', ''-c'', command_for ''call'' p args]]
    \<and> length (logs w') = length (logs w) + 1
    \<and> rand_no w' = rand_no w + (if packageName st = [] then 20 else 0)
    \<and> rand_src w' = rand_src w \<and> elapse w' = elapse w \<and> clock w' = clock w"
proof -
  let ?w1 = "snd (time_Since (lastQueryTime st) w)"
  have thr: "executeTask_throttle (MaxQPS args) (st, w)
           = (True, st\<lparr>queryCount := queryCount st + 1\<rparr>, ?w1)"
    using win cnt by (intro throttle_admit) (simp_all add: time_Since_frozen [OF fr])
  from body_composite [OF mode thr, of pw]
  obtain p cmd1 cmd2 w' where
    p: "p \<noteq> []" "packageName st \<noteq> [] \<longrightarrow> p = packageName st"
      "packageName st = [] \<longrightarrow>
          randomString MaxPackageLength w = Inr (p, w\<lparr>rand_no := rand_no w + 20\<rparr>)"
    and c: "\<forall>v. generateCommand ''addpkg'' p (FunctionName args) (Remote args)
             (KeyName args) (PkgDir args) (ChainID args) v = Inr (cmd1, v)"
      "\<forall>v. generateCommand ''call'' p (FunctionName args) (Remote args)
             (KeyName args) (PkgDir args) (ChainID args) v = Inr (cmd2, v)"
    and b: "executeTask_body args pw (st, w)
        = Inr (st\<lparr>queryCount := queryCount st + 1, packageName := [], firstLoop := False\<rparr>, w')"
    and e: "map ex_argv (execs w') = map ex_argv (execs w) @ [[''bash'', ''-c'', cmd1], [''bash'', ''-c'', cmd2]]"
    and z: "length (logs w') = length (logs w) + 1"
      "rand_no w' = rand_no w + (if packageName st = [] then 20 else 0)"
      "rand_src w' = rand_src w" "elapse w' = elapse w"
      "clock w' = clock ?w1 + int (elapse ?w1 (tick ?w1)) + int (elapse ?w1 (tick ?w1 + 1))
                  + int (elapse ?w1 (tick ?w1 + 2)) + int (elapse ?w1 (tick ?w1 + 3))
                  + int (elapse ?w1 (tick ?w1 + 4))"
    by blast
  have ck: "clock w' = clock w" using z(5) by (simp add: time_Since_frozen [OF fr] fr)
  from command_for_eq [OF c(1)] command_for_eq [OF c(2)] e
  have e': "map ex_argv (execs w') = map ex_argv (execs w) @
         [[''bash'', ''-c'', command_for ''addpkg'' p args],
          [''bash'', ''-c'', command_for ''call'' p args]]" by simp
  from p b e' z(1-4) ck show ?thesis by (intro exI [of _ p] exI [of _ w']) simp
qed


lemma two_cycles_frozen:
  assumes mode: "Mode args = ''addpkg+call''"
    and fr: "elapse w0 = (\<lambda>k. 0)"
    and q: "2 \<le> MaxQPS args"
  shows "\<exists>p1 p2 st w.
      executeTask 2 args pw w0 = Inr (st, w)
    \<and> map ex_argv (execs w) = map ex_argv (execs w0) @
         [[''bash'', ''-c'', command_for ''addpkg'' p1 args],
          [''bash'', ''-c'', command_for ''call'' p1 args],
          [''bash'', ''-c'', command_for ''addpkg'' p2 args],
          [''bash'', ''-c'', command_for ''call'' p2 args]]
    \<and> (PackageName args \<noteq> [] \<longrightarrow> p1 = PackageName args)
    \<and> (PackageName args = [] \<longrightarrow>
          (\<forall>v. rand_src v = rand_src w0 \<and> rand_no v = rand_no w0
             \<longrightarrow> randomString MaxPackageLength v = Inr (p1, v\<lparr>rand_no := rand_no v + 20\<rparr>)))
    \<and> (\<forall>v. rand_src v = rand_src w0
            \<and> rand_no v = rand_no w0 + (if PackageName args = [] then 20 else 0)
          \<longrightarrow> randomString MaxPackageLength v = Inr (p2, v\<lparr>rand_no := rand_no v + 20\<rparr>))"
proof -
  let ?stI = "\<lparr>queryCount = 0, lastQueryTime = clock w0, firstLoop = True,
               packageName = PackageName args\<rparr>"
  let ?wI = "snd (time_Now w0)"
  have init: "executeTask_init args w0 = (?stI, ?wI)"
    using fr by (simp add: executeTask_init_def time_Now_def Let_def)
  have wI: "elapse ?wI = (\<lambda>k. 0)" "clock ?wI = clock w0" "execs ?wI = execs w0"
    "rand_no ?wI = rand_no w0" "rand_src ?wI = rand_src w0"
    using fr by (simp_all add: time_Now_def Let_def)
  have "clock ?wI - lastQueryTime ?stI < Second" "queryCount ?stI < MaxQPS args"
    using q by (simp_all add: wI Second_def)
  from body_composite_frozen [OF mode wI(1) this, of pw]
  obtain p1 wA where
    a: "packageName ?stI \<noteq> [] \<longrightarrow> p1 = packageName ?stI"
      "packageName ?stI = [] \<longrightarrow>
          randomString MaxPackageLength ?wI = Inr (p1, ?wI\<lparr>rand_no := rand_no ?wI + 20\<rparr>)"
      "executeTask_body args pw (?stI, ?wI)
        = Inr (?stI\<lparr>queryCount := queryCount ?stI + 1, packageName := [], firstLoop := False\<rparr>, wA)"
      "map ex_argv (execs wA) = map ex_argv (execs ?wI) @
         [[''bash'', ''-c'', command_for ''addpkg'' p1 args],
          [''bash'', ''-c'', command_for ''call'' p1 args]]"
      "rand_no wA = rand_no ?wI + (if packageName ?stI = [] then 20 else 0)"
      "rand_src wA = rand_src ?wI" "elapse wA = elapse ?wI" "clock wA = clock ?wI"
    by blast
  let ?stA = "?stI\<lparr>queryCount := queryCount ?stI + 1, packageName := [], firstLoop := False\<rparr>"
  have "clock wA - lastQueryTime ?stA < Second" "queryCount ?stA < MaxQPS args"
    using q by (simp_all add: a wI Second_def)
  from body_composite_frozen [OF mode _ this, of pw] a(7) wI(1)
  obtain p2 wB where
    b: "packageName ?stA = [] \<longrightarrow>
          randomString MaxPackageLength wA = Inr (p2, wA\<lparr>rand_no := rand_no wA + 20\<rparr>)"
      "executeTask_body args pw (?stA, wA)
        = Inr (?stA\<lparr>queryCount := queryCount ?stA + 1, packageName := [], firstLoop := False\<rparr>, wB)"
      "map ex_argv (execs wB) = map ex_argv (execs wA) @
         [[''bash'', ''-c'', command_for ''addpkg'' p2 args],
          [''bash'', ''-c'', command_for ''call'' p2 args]]"
    by auto
  have run: "executeTask 2 args pw w0
      = Inr (?stA\<lparr>queryCount := queryCount ?stA + 1, packageName := [], firstLoop := False\<rparr>, wB)"
    using init a(3) b(2) by (simp add: executeTask_def numeral_2_eq_2)
  have ex: "map ex_argv (execs wB) = map ex_argv (execs w0) @
         [[''bash'', ''-c'', command_for ''addpkg'' p1 args],
          [''bash'', ''-c'', command_for ''call'' p1 args],
          [''bash'', ''-c'', command_for ''addpkg'' p2 args],
          [''bash'', ''-c'', command_for ''call'' p2 args]]"
    using a(4) b(3) wI(3) by simp
  have n1: "PackageName args \<noteq> [] \<longrightarrow> p1 = PackageName args" using a(1) by simp
  have n2: "PackageName args = [] \<longrightarrow>
          (\<forall>v. rand_src v = rand_src w0 \<and> rand_no v = rand_no w0
             \<longrightarrow> randomString MaxPackageLength v = Inr (p1, v\<lparr>rand_no := rand_no v + 20\<rparr>))"
  proof (intro impI allI)
    fix v :: world assume e: "PackageName args = []" and v: "rand_src v = rand_src w0 \<and> rand_no v = rand_no w0"
    from a(2) e have "randomString MaxPackageLength ?wI = Inr (p1, ?wI\<lparr>rand_no := rand_no ?wI + 20\<rparr>)"
      by simp
    from randomString_cong [OF _ _ this, of v] v wI(4,5)
    show "randomString MaxPackageLength v = Inr (p1, v\<lparr>rand_no := rand_no v + 20\<rparr>)"
      by (simp add: MaxPackageLength_def)
  qed
  have n3: "\<forall>v. rand_src v = rand_src w0
            \<and> rand_no v = rand_no w0 + (if PackageName args = [] then 20 else 0)
          \<longrightarrow> randomString MaxPackageLength v = Inr (p2, v\<lparr>rand_no := rand_no v + 20\<rparr>)"
  proof (intro impI allI)
    fix v :: world assume v: "rand_src v = rand_src w0
            \<and> rand_no v = rand_no w0 + (if PackageName args = [] then 20 else 0)"
    from b(1) have "randomString MaxPackageLength wA = Inr (p2, wA\<lparr>rand_no := rand_no wA + 20\<rparr>)"
      by simp
    from randomString_cong [OF _ _ this, of v] v a(5,6) wI(4,5)
    show "randomString MaxPackageLength v = Inr (p2, v\<lparr>rand_no := rand_no v + 20\<rparr>)"
      by (simp add: MaxPackageLength_def)
  qed
  from run ex n1 n2 n3 show ?thesis by blast
qed

lemma randomString_world_same:
  "(case randomString 20 world_same of Inl e \<Rightarrow> [] | Inr (s, w) \<Rightarrow> s) = ''aaaaaaaaaaaaaaaaaaaa''"
  "(case randomString 20 (world_same\<lparr>rand_no := 20\<rparr>) of Inl e \<Rightarrow> [] | Inr (s, w) \<Rightarrow> s)
     = ''aaaaaaaaaaaaaaaaaaaa''"
  by code_simp+

text \<open>
  C4, as the code has it. In the mode \<open>addpkg+call\<close>, once a cycle has completed the worker's
  \<open>packageName\<close> is empty, whether the name was configured or generated, and it stays empty
  until the next cycle. So the next cycle generates its name: both of its commands are made
  for a result of \<open>randomString(MaxPackageLength)\<close>, twenty letters of the lowercase alphabet
  and hence not empty, and the cycle leaves \<open>packageName\<close> empty again. A configured name is
  used in a worker's first cycle only.
\<close>

theorem next_cycle_name_generated:
  assumes "Mode args = ''addpkg+call''"
    and "executeTask_loop n args password (st0, w0) = Inr (st, w)"
    and "logs w \<noteq> logs w0"
  shows "packageName st = []
    \<and> (\<forall>st1 w1. executeTask_throttle (MaxQPS args) (st, w) = (True, st1, w1) \<longrightarrow>
        (\<exists>p cmd1 cmd2 st' w'.
           executeTask_body args password (st, w) = Inr (st', w')
         \<and> map ex_argv (execs w') = map ex_argv (execs w) @
              [[''bash'', ''-c'', cmd1], [''bash'', ''-c'', cmd2]]
         \<and> (\<forall>v. generateCommand ''addpkg'' p (FunctionName args) (Remote args) (KeyName args)
                    (PkgDir args) (ChainID args) v = Inr (cmd1, v))
         \<and> (\<forall>v. generateCommand ''call'' p (FunctionName args) (Remote args) (KeyName args)
                    (PkgDir args) (ChainID args) v = Inr (cmd2, v))
         \<and> randomString MaxPackageLength w = Inr (p, w\<lparr>rand_no := rand_no w + 20\<rparr>)
         \<and> length p = 20 \<and> p \<noteq> [] \<and> set p \<subseteq> set ''abcdefghijklmnopqrstuvwxyz''
         \<and> packageName st' = []))"
proof -
  from loop_packageName [OF assms(1,2)] assms(3) have e: "packageName st = []" by blast
  have "\<exists>p cmd1 cmd2 st' w'.
           executeTask_body args password (st, w) = Inr (st', w')
         \<and> map ex_argv (execs w') = map ex_argv (execs w) @
              [[''bash'', ''-c'', cmd1], [''bash'', ''-c'', cmd2]]
         \<and> (\<forall>v. generateCommand ''addpkg'' p (FunctionName args) (Remote args) (KeyName args)
                    (PkgDir args) (ChainID args) v = Inr (cmd1, v))
         \<and> (\<forall>v. generateCommand ''call'' p (FunctionName args) (Remote args) (KeyName args)
                    (PkgDir args) (ChainID args) v = Inr (cmd2, v))
         \<and> randomString MaxPackageLength w = Inr (p, w\<lparr>rand_no := rand_no w + 20\<rparr>)
         \<and> length p = 20 \<and> p \<noteq> [] \<and> set p \<subseteq> set ''abcdefghijklmnopqrstuvwxyz''
         \<and> packageName st' = []"
    if thr: "executeTask_throttle (MaxQPS args) (st, w) = (True, st1, w1)" for st1 w1
  proof -
    from body_composite [OF assms(1) thr, of password] e
    obtain p cmd1 cmd2 w' where
      b: "randomString MaxPackageLength w = Inr (p, w\<lparr>rand_no := rand_no w + 20\<rparr>)"
        "\<forall>v. generateCommand ''addpkg'' p (FunctionName args) (Remote args)
             (KeyName args) (PkgDir args) (ChainID args) v = Inr (cmd1, v)"
        "\<forall>v. generateCommand ''call'' p (FunctionName args) (Remote args)
             (KeyName args) (PkgDir args) (ChainID args) v = Inr (cmd2, v)"
        "executeTask_body args password (st, w) = Inr (st1\<lparr>packageName := [], firstLoop := False\<rparr>, w')"
        "map ex_argv (execs w') = map ex_argv (execs w) @ [[''bash'', ''-c'', cmd1], [''bash'', ''-c'', cmd2]]"
      by auto
    from randomString_MaxPackageLength [of w] b(1)
    have "length p = 20" "p \<noteq> []" "set p \<subseteq> set ''abcdefghijklmnopqrstuvwxyz''"
      by (auto simp: charset_def)
    with b show ?thesis
      by (intro exI [of _ p] exI [of _ cmd1] exI [of _ cmd2]
            exI [of _ "st1\<lparr>packageName := [], firstLoop := False\<rparr>"] exI [of _ w']) simp
  qed
  with e show ?thesis by blast
qed

theorem next_cycle_name_generated_witness:
  "Mode args_pinned = ''addpkg+call'' \<and> PackageName args_pinned = ''pinned''
   \<and> (\<exists>st w st1 w1.
        executeTask_loop 1 args_pinned [] (executeTask_init args_pinned world0) = Inr (st, w)
      \<and> logs w \<noteq> logs (snd (executeTask_init args_pinned world0))
      \<and> executeTask_throttle (MaxQPS args_pinned) (st, w) = (True, st1, w1)
      \<and> packageName st = []
      \<and> (\<exists>p st' w'. executeTask_body args_pinned [] (st, w) = Inr (st', w')
            \<and> map ex_argv (execs w') = map ex_argv (execs w) @
                 [[''bash'', ''-c'', command_for ''addpkg'' p args_pinned],
                  [''bash'', ''-c'', command_for ''call'' p args_pinned]]
            \<and> length p = 20 \<and> p \<noteq> ''pinned''))"
proof -
  have m: "Mode args_pinned = ''addpkg+call''" "PackageName args_pinned = ''pinned''"
    "2 \<le> MaxQPS args_pinned"
    by (simp_all add: args_pinned_def)
  let ?stI = "\<lparr>queryCount = 0, lastQueryTime = 0, firstLoop = True, packageName = ''pinned''\<rparr>"
  let ?wI = "snd (time_Now world0)"
  have init: "executeTask_init args_pinned world0 = (?stI, ?wI)"
    by (simp add: executeTask_init_def time_Now_def Let_def world0_def m)
  have wI: "elapse ?wI = (\<lambda>k. 0)" "clock ?wI = 0"
    by (simp_all add: time_Now_def Let_def world0_def)
  have "clock ?wI - lastQueryTime ?stI < Second" "queryCount ?stI < MaxQPS args_pinned"
    using m(3) by (simp_all add: wI Second_def)
  from body_composite_frozen [OF m(1) wI(1) this, of "[]"]
  obtain wA where
    a: "executeTask_body args_pinned [] (?stI, ?wI)
        = Inr (?stI\<lparr>queryCount := queryCount ?stI + 1, packageName := [], firstLoop := False\<rparr>, wA)"
      "length (logs wA) = length (logs ?wI) + 1"
      "elapse wA = elapse ?wI" "clock wA = clock ?wI"
    by blast
  let ?stA = "?stI\<lparr>queryCount := queryCount ?stI + 1, packageName := [], firstLoop := False\<rparr>"
  have run: "executeTask_loop 1 args_pinned [] (?stI, ?wI) = Inr (?stA, wA)"
    using a(1) by simp
  have ne: "logs wA \<noteq> logs ?wI" using a(2) by auto
  have thr: "executeTask_throttle (MaxQPS args_pinned) (?stA, wA)
      = (True, ?stA\<lparr>queryCount := queryCount ?stA + 1\<rparr>, snd (time_Since (lastQueryTime ?stA) wA))"
    using m(3) a(3,4) wI
    by (intro throttle_admit) (simp_all add: time_Since_frozen Second_def)
  from next_cycle_name_generated [OF m(1) run ne] thr
  obtain p cmd1 cmd2 st' w' where
    c: "executeTask_body args_pinned [] (?stA, wA) = Inr (st', w')"
      "map ex_argv (execs w') = map ex_argv (execs wA) @
              [[''bash'', ''-c'', cmd1], [''bash'', ''-c'', cmd2]]"
      "\<forall>v. generateCommand ''addpkg'' p (FunctionName args_pinned) (Remote args_pinned)
             (KeyName args_pinned) (PkgDir args_pinned) (ChainID args_pinned) v = Inr (cmd1, v)"
      "\<forall>v. generateCommand ''call'' p (FunctionName args_pinned) (Remote args_pinned)
             (KeyName args_pinned) (PkgDir args_pinned) (ChainID args_pinned) v = Inr (cmd2, v)"
      "length p = 20"
    and e: "packageName ?stA = []"
    by blast
  from c(5) have "p \<noteq> ''pinned''" by auto
  with c command_for_eq [OF c(3)] command_for_eq [OF c(4)]
  have "\<exists>p st' w'. executeTask_body args_pinned [] (?stA, wA) = Inr (st', w')
            \<and> map ex_argv (execs w') = map ex_argv (execs wA) @
                 [[''bash'', ''-c'', command_for ''addpkg'' p args_pinned],
                  [''bash'', ''-c'', command_for ''call'' p args_pinned]]
            \<and> length p = 20 \<and> p \<noteq> ''pinned''"
    by blast
  moreover have "executeTask_loop 1 args_pinned [] (executeTask_init args_pinned world0)
      = Inr (?stA, wA)"
    unfolding init by (rule run)
  moreover have "logs wA \<noteq> logs (snd (executeTask_init args_pinned world0))"
    unfolding init using ne by simp
  moreover note thr e m(1,2)
  ultimately show ?thesis by blast
qed

text \<open>The claim C4 as stated fails in two runs of two cycles. With the package name
  \<open>pinned\<close> configured, the second cycle runs its commands for a generated name and not for
  \<open>pinned\<close>. With no name configured and a random source that repeats itself, the second
  cycle's name equals the first cycle's: the code does not compare the names.\<close>

theorem pinned_name_not_kept:
  "commands_run (executeTask 2 args_pinned [] world0) =
     [[''bash'', ''-c'', command_for ''addpkg'' ''pinned'' args_pinned],
      [''bash'', ''-c'', command_for ''call'' ''pinned'' args_pinned],
      [''bash'', ''-c'', command_for ''addpkg'' ''abcdefghijklmnopqrst'' args_pinned],
      [''bash'', ''-c'', command_for ''call'' ''abcdefghijklmnopqrst'' args_pinned]]
   \<and> commands_run (executeTask 2 args_composite [] world_same) =
     [[''bash'', ''-c'', command_for ''addpkg'' ''aaaaaaaaaaaaaaaaaaaa'' args_composite],
      [''bash'', ''-c'', command_for ''call'' ''aaaaaaaaaaaaaaaaaaaa'' args_composite],
      [''bash'', ''-c'', command_for ''addpkg'' ''aaaaaaaaaaaaaaaaaaaa'' args_composite],
      [''bash'', ''-c'', command_for ''call'' ''aaaaaaaaaaaaaaaaaaaa'' args_composite]]"
proof -
  have m1: "Mode args_pinned = ''addpkg+call''" "2 \<le> MaxQPS args_pinned"
    "PackageName args_pinned = ''pinned''"
    by (simp_all add: args_pinned_def)
  have m2: "Mode args_composite = ''addpkg+call''" "2 \<le> MaxQPS args_composite"
    "PackageName args_composite = []"
    by (simp_all add: args_composite_def args_pinned_def)
  have f1: "elapse world0 = (\<lambda>k. 0)" "execs world0 = []" by (simp_all add: world0_def)
  have f2: "elapse world_same = (\<lambda>k. 0)" "execs world_same = []"
    by (simp_all add: world_same_def world0_def)
  from two_cycles_frozen [OF m1(1) f1(1) m1(2), of "[]"] obtain p1 p2 st w where
    r: "executeTask 2 args_pinned [] world0 = Inr (st, w)"
      "map ex_argv (execs w) = map ex_argv (execs world0) @
         [[''bash'', ''-c'', command_for ''addpkg'' p1 args_pinned],
          [''bash'', ''-c'', command_for ''call'' p1 args_pinned],
          [''bash'', ''-c'', command_for ''addpkg'' p2 args_pinned],
          [''bash'', ''-c'', command_for ''call'' p2 args_pinned]]"
      "PackageName args_pinned \<noteq> [] \<longrightarrow> p1 = PackageName args_pinned"
      "\<forall>v. rand_src v = rand_src world0
            \<and> rand_no v = rand_no world0 + (if PackageName args_pinned = [] then 20 else 0)
          \<longrightarrow> randomString MaxPackageLength v = Inr (p2, v\<lparr>rand_no := rand_no v + 20\<rparr>)"
    by blast
  from r(3) m1(3) have p1: "p1 = ''pinned''" by simp
  from r(4) m1(3) have "randomString MaxPackageLength world0
      = Inr (p2, world0\<lparr>rand_no := rand_no world0 + 20\<rparr>)" by simp
  with randomString_world0 have p2: "p2 = ''abcdefghijklmnopqrst''"
    by (simp add: MaxPackageLength_def)
  have A: "commands_run (executeTask 2 args_pinned [] world0) =
     [[''bash'', ''-c'', command_for ''addpkg'' ''pinned'' args_pinned],
      [''bash'', ''-c'', command_for ''call'' ''pinned'' args_pinned],
      [''bash'', ''-c'', command_for ''addpkg'' ''abcdefghijklmnopqrst'' args_pinned],
      [''bash'', ''-c'', command_for ''call'' ''abcdefghijklmnopqrst'' args_pinned]]"
    using r(1,2) p1 p2 f1(2) by (simp add: commands_run_def)
  from two_cycles_frozen [OF m2(1) f2(1) m2(2), of "[]"] obtain q1 q2 st' w' where
    s: "executeTask 2 args_composite [] world_same = Inr (st', w')"
      "map ex_argv (execs w') = map ex_argv (execs world_same) @
         [[''bash'', ''-c'', command_for ''addpkg'' q1 args_composite],
          [''bash'', ''-c'', command_for ''call'' q1 args_composite],
          [''bash'', ''-c'', command_for ''addpkg'' q2 args_composite],
          [''bash'', ''-c'', command_for ''call'' q2 args_composite]]"
      "PackageName args_composite = [] \<longrightarrow>
          (\<forall>v. rand_src v = rand_src world_same \<and> rand_no v = rand_no world_same
             \<longrightarrow> randomString MaxPackageLength v = Inr (q1, v\<lparr>rand_no := rand_no v + 20\<rparr>))"
      "\<forall>v. rand_src v = rand_src world_same
            \<and> rand_no v = rand_no world_same + (if PackageName args_composite = [] then 20 else 0)
          \<longrightarrow> randomString MaxPackageLength v = Inr (q2, v\<lparr>rand_no := rand_no v + 20\<rparr>)"
    by blast
  from s(3) m2(3) have "randomString MaxPackageLength world_same
      = Inr (q1, world_same\<lparr>rand_no := rand_no world_same + 20\<rparr>)" by simp
  with randomString_world_same(1) have q1: "q1 = ''aaaaaaaaaaaaaaaaaaaa''"
    by (simp add: MaxPackageLength_def)
  have "rand_no world_same = 0" by (simp add: world_same_def world0_def)
  with s(4) m2(3) have "randomString MaxPackageLength (world_same\<lparr>rand_no := 20\<rparr>)
      = Inr (q2, world_same\<lparr>rand_no := 20, rand_no := 20 + 20\<rparr>)"
    by auto
  with randomString_world_same(2) have q2: "q2 = ''aaaaaaaaaaaaaaaaaaaa''"
    by (simp add: MaxPackageLength_def)
  have B: "commands_run (executeTask 2 args_composite [] world_same) =
     [[''bash'', ''-c'', command_for ''addpkg'' ''aaaaaaaaaaaaaaaaaaaa'' args_composite],
      [''bash'', ''-c'', command_for ''call'' ''aaaaaaaaaaaaaaaaaaaa'' args_composite],
      [''bash'', ''-c'', command_for ''addpkg'' ''aaaaaaaaaaaaaaaaaaaa'' args_composite],
      [''bash'', ''-c'', command_for ''call'' ''aaaaaaaaaaaaaaaaaaaa'' args_composite]]"
    using s(1,2) q1 q2 f2(2) by (simp add: commands_run_def)
  from A B show ?thesis by blast
qed


section \<open>The throttle\<close>

lemma admitted_in_simps [simp]:
  "admitted_in W [] = 0"
  "admitted_in W (d # ds) = (if d_admitted d \<and> d_window d = W then 1 else 0) + admitted_in W ds"
  by (simp_all add: admitted_in_def)













end
